theory Spec2Isabelle
  imports Complex_Main "HOL-Library.Multiset"
begin

section \<open>Python values shared by both modules\<close>

text \<open>
  Exceptions are values. The constructors name the classes the two modules can meet;
  \<open>OtherException\<close> stands for any further subclass of Python's \<open>Exception\<close> a
  collaborator raises. \<open>KeyboardInterrupt\<close> and \<open>SystemExit\<close> derive from
  \<open>BaseException\<close> only, which is what \<open>is_Exception\<close> records.
\<close>

datatype exn =
    ZeroDivisionError
  | IndexError
  | ValueError
  | AssertionError
  | FileNotFoundError
  | OtherException string
  | KeyboardInterrupt
  | SystemExit

fun is_Exception :: "exn \<Rightarrow> bool" where
  "is_Exception KeyboardInterrupt = False"
| "is_Exception SystemExit = False"
| "is_Exception _ = True"

text \<open>Python's \<open>xs[start:stop]\<close> and \<open>xs[start:]\<close> on a sequence, negative bounds counted
  from the end and every bound clipped to the sequence.\<close>

definition slice_bound :: "'a list \<Rightarrow> int \<Rightarrow> nat" where
  "slice_bound xs i =
     (let n = int (length xs) in nat (if i < 0 then max 0 (n + i) else min n i))"

definition slice :: "'a list \<Rightarrow> int \<Rightarrow> int \<Rightarrow> 'a list" where
  "slice xs start stop = take (slice_bound xs stop - slice_bound xs start) (drop (slice_bound xs start) xs)"

definition slice_from :: "'a list \<Rightarrow> int \<Rightarrow> 'a list" where
  "slice_from xs start = drop (slice_bound xs start) xs"

definition slice_to :: "'a list \<Rightarrow> int \<Rightarrow> 'a list" where
  "slice_to xs stop = take (slice_bound xs stop) xs"

text \<open>\<open>range(n)\<close> for an integer \<open>n\<close>: empty when \<open>n \<le> 0\<close>.\<close>

definition py_range :: "int \<Rightarrow> int list" where
  "py_range n = map int [0..<nat n]"

text \<open>Indexing a tensor by a list of positions, \<open>t[indices]\<close>: a new tensor holding the
  selected rows, \<open>IndexError\<close> when a position is outside the leading dimension.\<close>

definition index_select :: "'a list \<Rightarrow> nat list \<Rightarrow> exn + 'a list" where
  "index_select t indices =
     (if list_all (\<lambda>i. i < length t) indices then Inr (map (\<lambda>i. t ! i) indices)
      else Inl IndexError)"

section \<open>experience\_buffer.py\<close>

text \<open>
  The part of \<open>numpy.random\<close> the buffer uses: \<open>RandomState(seed)\<close> builds a
  generator state and \<open>shuffle\<close> reorders a list in place, advancing the generator. The
  library is not part of the repository, so both are parameters of the model.
\<close>

record 'g numpy_random =
  RandomState :: "int \<Rightarrow> 'g"
  shuffle :: "'g \<Rightarrow> nat list \<Rightarrow> nat list \<times> 'g"

text \<open>
  An \<open>ExperienceBuffer\<close> object. Each of the nine tensors is the list of its rows along
  the leading (time) dimension; \<open>'a\<close> is the type of one row.
\<close>

record ('a, 'g) ExperienceBuffer =
  device :: string
  seed :: int
  states :: "'a list"
  actions :: "'a list"
  log_probs :: "'a list"
  rewards :: "'a list"
  next_states :: "'a list"
  dones :: "'a list"
  truncated :: "'a list"
  "values" :: "'a list"
  advantages :: "'a list"
  max_size :: int
  rng :: 'g

definition ExperienceBuffer_init ::
  "'g numpy_random \<Rightarrow> int \<Rightarrow> int \<Rightarrow> string \<Rightarrow> ('a, 'g) ExperienceBuffer" where
  "ExperienceBuffer_init np max_size' seed' device' =
     \<lparr> device = device', seed = seed',
       states = [], actions = [], log_probs = [], rewards = [], next_states = [],
       dones = [], truncated = [], values = [], advantages = [],
       max_size = max_size', rng = RandomState np seed' \<rparr>"

definition clamp_size :: "('a, 'g) ExperienceBuffer \<Rightarrow> ('a, 'g) ExperienceBuffer" where
  "clamp_size self =
     (let start = int (length (actions self)) - max_size self in
      if start > 0 then
        self\<lparr> actions := slice_from (actions self) start,
              log_probs := slice_from (log_probs self) start,
              rewards := slice_from (rewards self) start,
              states := slice_from (states self) start,
              next_states := slice_from (next_states self) start,
              dones := slice_from (dones self) start,
              values := slice_from (values self) start,
              advantages := slice_from (advantages self) start \<rparr>
      else self)"

definition submit_experience ::
  "('a, 'g) ExperienceBuffer \<Rightarrow> 'a list \<Rightarrow> 'a list \<Rightarrow> 'a list \<Rightarrow> 'a list \<Rightarrow> 'a list \<Rightarrow>
   'a list \<Rightarrow> 'a list \<Rightarrow> 'a list \<Rightarrow> 'a list \<Rightarrow> ('a, 'g) ExperienceBuffer" where
  "submit_experience self states' actions' log_probs' rewards' next_states' dones' truncated'
       values' advantages' =
     clamp_size
       (self\<lparr> states := states self @ states',
              actions := actions self @ actions',
              log_probs := log_probs self @ log_probs',
              rewards := rewards self @ rewards',
              next_states := next_states self @ next_states',
              dones := dones self @ dones',
              truncated := truncated self @ truncated',
              values := values self @ values',
              advantages := advantages self @ advantages' \<rparr>)"

text \<open>
  \<open>get_all_batches_shuffled\<close> returns the batches, or the exception it raises, together
  with the buffer as the call leaves it. A batch is the Python list of five tensors
  \<open>[acts, probs, obs, vals, adv]\<close>.
\<close>

definition get_all_batches_shuffled ::
  "'g numpy_random \<Rightarrow> ('a, 'g) ExperienceBuffer \<Rightarrow> int \<Rightarrow>
   (exn + 'a list list list) \<times> ('a, 'g) ExperienceBuffer" where
  "get_all_batches_shuffled np self batch_size =
     (let (indices, g) = shuffle np (rng self) [0..<length (rewards self)];
          self' = self\<lparr> rng := g \<rparr>
      in case index_select (actions self) indices of Inl e \<Rightarrow> (Inl e, self') | Inr acts \<Rightarrow>
        (case index_select (log_probs self) indices of Inl e \<Rightarrow> (Inl e, self') | Inr probs \<Rightarrow>
        (case index_select (states self) indices of Inl e \<Rightarrow> (Inl e, self') | Inr obs \<Rightarrow>
        (case index_select (values self) indices of Inl e \<Rightarrow> (Inl e, self') | Inr vals \<Rightarrow>
        (case index_select (advantages self) indices of Inl e \<Rightarrow> (Inl e, self') | Inr adv \<Rightarrow>
          (if batch_size = 0 then (Inl ZeroDivisionError, self')
           else
             let n = int (length acts) div batch_size in
             (Inr (map (\<lambda>i. let start = i * batch_size; stop = start + batch_size in
                          [slice acts start stop, slice probs start stop, slice obs start stop,
                           slice vals start stop, slice adv start stop])
                     (py_range n)),
              self')))))))"

definition clear :: "'g numpy_random \<Rightarrow> ('a, 'g) ExperienceBuffer \<Rightarrow> ('a, 'g) ExperienceBuffer" where
  "clear np self = ExperienceBuffer_init np (max_size self) (seed self) (device self)"

subsection \<open>Sequences of calls on a buffer\<close>

text \<open>The nine arguments of one \<open>submit_experience\<close> call, in the order of its
  parameters.\<close>

type_synonym 'a submission =
  "'a list \<times> 'a list \<times> 'a list \<times> 'a list \<times> 'a list \<times> 'a list \<times> 'a list \<times> 'a list \<times> 'a list"

fun submit :: "('a, 'g) ExperienceBuffer \<Rightarrow> 'a submission \<Rightarrow> ('a, 'g) ExperienceBuffer" where
  "submit self (s, a, l, r, n, d, t, v, adv) = submit_experience self s a l r n d t v adv"

text \<open>A submission has matched lengths when its nine sequences are equally long.\<close>

fun matched :: "'a submission \<Rightarrow> bool" where
  "matched (s, a, l, r, n, d, t, v, adv) =
     (length s = length a \<and> length l = length a \<and> length r = length a \<and>
      length n = length a \<and> length d = length a \<and> length t = length a \<and>
      length v = length a \<and> length adv = length a)"

fun submit_all :: "('a, 'g) ExperienceBuffer \<Rightarrow> 'a submission list \<Rightarrow> ('a, 'g) ExperienceBuffer" where
  "submit_all self [] = self"
| "submit_all self (x # xs) = submit_all (submit self x) xs"

text \<open>The public calls of the class, and what a caller observes of each: nothing for a
  submission or a clear, the returned batches or the raised exception for a shuffle.\<close>

datatype 'a call = Submit "'a submission" | Shuffle int | Clear

fun perform ::
  "'g numpy_random \<Rightarrow> ('a, 'g) ExperienceBuffer \<Rightarrow> 'a call \<Rightarrow>
   (exn + 'a list list list) option \<times> ('a, 'g) ExperienceBuffer" where
  "perform np self (Submit x) = (None, submit self x)"
| "perform np self (Shuffle batch_size) =
     (case get_all_batches_shuffled np self batch_size of (r, self') \<Rightarrow> (Some r, self'))"
| "perform np self Clear = (None, clear np self)"

fun perform_all ::
  "'g numpy_random \<Rightarrow> ('a, 'g) ExperienceBuffer \<Rightarrow> 'a call list \<Rightarrow>
   (exn + 'a list list list) option list \<times> ('a, 'g) ExperienceBuffer" where
  "perform_all np self [] = ([], self)"
| "perform_all np self (c # cs) =
     (case perform np self c of (out, self') \<Rightarrow>
        (case perform_all np self' cs of (outs, self'') \<Rightarrow> (out # outs, self'')))"

text \<open>The order in which a call of \<open>get_all_batches_shuffled\<close> visits the resident
  positions, and the positions that go into batch \<open>i\<close>.\<close>

definition shuffled_indices :: "'g numpy_random \<Rightarrow> ('a, 'g) ExperienceBuffer \<Rightarrow> nat list" where
  "shuffled_indices np self = fst (shuffle np (rng self) [0..<length (rewards self)])"

definition batch_indices :: "nat list \<Rightarrow> nat \<Rightarrow> nat \<Rightarrow> nat list" where
  "batch_indices indices batch_size i = take batch_size (drop (i * batch_size) indices)"

definition gather :: "nat list \<Rightarrow> 'a list \<Rightarrow> 'a list" where
  "gather indices t = map (\<lambda>k. t ! k) indices"

text \<open>The resident length seen by a shuffle is that of \<open>rewards\<close>; a buffer is aligned
  for shuffling when the five emitted tensors are as long.\<close>

definition shuffle_aligned :: "('a, 'g) ExperienceBuffer \<Rightarrow> bool" where
  "shuffle_aligned self =
     (length (actions self) = length (rewards self) \<and>
      length (log_probs self) = length (rewards self) \<and>
      length (states self) = length (rewards self) \<and>
      length (values self) = length (rewards self) \<and>
      length (advantages self) = length (rewards self))"

text \<open>A small generator for concrete runs: the state counts the shuffles made and a
  shuffle rotates the list by that count plus one.\<close>

definition rotating_random :: "nat numpy_random" where
  "rotating_random =
     \<lparr> RandomState = (\<lambda>s. nat \<bar>s\<bar>), shuffle = (\<lambda>g xs. (rotate (Suc g) xs, Suc g)) \<rparr>"

text \<open>A submission of the transitions numbered \<open>i, \<dots>, j - 1\<close>: every one of the nine
  sequences carries the transition's number.\<close>

definition numbered :: "nat \<Rightarrow> nat \<Rightarrow> nat submission" where
  "numbered i j = ([i..<j], [i..<j], [i..<j], [i..<j], [i..<j], [i..<j], [i..<j], [i..<j], [i..<j])"

text \<open>A buffer of capacity 500 on the small generator, holding transitions 0 to 6, and
  the same buffer before any submission.\<close>

definition empty_buffer :: "(nat, nat) ExperienceBuffer" where
  "empty_buffer = ExperienceBuffer_init rotating_random 500 0 ''cpu''"

definition seven_buffer :: "(nat, nat) ExperienceBuffer" where
  "seven_buffer = submit_all empty_buffer [numbered 0 4, numbered 4 7]"

text \<open>The eight tensors that \<open>_clamp_size\<close> trims are aligned when they are equally
  long.\<close>

definition trimmed_aligned :: "('a, 'g) ExperienceBuffer \<Rightarrow> bool" where
  "trimmed_aligned self =
     (length (states self) = length (actions self) \<and>
      length (log_probs self) = length (actions self) \<and>
      length (rewards self) = length (actions self) \<and>
      length (next_states self) = length (actions self) \<and>
      length (dones self) = length (actions self) \<and>
      length (values self) = length (actions self) \<and>
      length (advantages self) = length (actions self))"

section \<open>Python built-ins used by learner.py\<close>

text \<open>\<open>str(n)\<close> for an integer: its decimal digits, with a leading minus sign when
  negative.\<close>

definition digit_char :: "nat \<Rightarrow> char" where
  "digit_char d = ''0123456789'' ! d"

fun str_nat :: "nat \<Rightarrow> string" where
  "str_nat n = (if n < 10 then [digit_char n] else str_nat (n div 10) @ [digit_char (n mod 10)])"

declare str_nat.simps [simp del]

definition py_str :: "int \<Rightarrow> string" where
  "py_str i = (if i < 0 then CHR ''-'' # str_nat (nat (- i)) else str_nat (nat i))"

text \<open>\<open>int(s)\<close> for a string, on ASCII input: surrounding white space (tab, line
  feed, vertical tab, form feed, carriage return, space) is dropped, one sign is allowed,
  and the digits may be separated by single underscores. Anything else is a
  \<open>ValueError\<close>.\<close>

definition digit_val :: "char \<Rightarrow> nat option" where
  "digit_val c =
     (let n = (of_char c :: nat) in if 48 \<le> n \<and> n \<le> 57 then Some (n - 48) else None)"

definition is_space :: "char \<Rightarrow> bool" where
  "is_space c = (let n = (of_char c :: nat) in (9 \<le> n \<and> n \<le> 13) \<or> n = 32)"

definition strip :: "string \<Rightarrow> string" where
  "strip s = rev (dropWhile is_space (rev (dropWhile is_space s)))"

fun digits_from :: "nat \<Rightarrow> string \<Rightarrow> nat option" where
  "digits_from acc [] = Some acc"
| "digits_from acc (c # cs) =
     (if c = CHR ''_'' then
        (case cs of [] \<Rightarrow> None
         | d # ds \<Rightarrow>
            (case digit_val d of None \<Rightarrow> None | Some v \<Rightarrow> digits_from (10 * acc + v) ds))
      else (case digit_val c of None \<Rightarrow> None | Some v \<Rightarrow> digits_from (10 * acc + v) cs))"

text \<open>A string of decimal digits only.\<close>

definition all_digits :: "string \<Rightarrow> bool" where
  "all_digits s = list_all (\<lambda>c. digit_val c \<noteq> None) s"

definition parse_digits :: "string \<Rightarrow> nat option" where
  "parse_digits s =
     (case s of [] \<Rightarrow> None
      | c # cs \<Rightarrow> (case digit_val c of None \<Rightarrow> None | Some v \<Rightarrow> digits_from v cs))"

definition py_int :: "string \<Rightarrow> exn + int" where
  "py_int s =
     (case strip s of [] \<Rightarrow> Inl ValueError
      | c # cs \<Rightarrow>
          (if c = CHR ''-'' then
             (case parse_digits cs of None \<Rightarrow> Inl ValueError | Some n \<Rightarrow> Inr (- int n))
           else if c = CHR ''+'' then
             (case parse_digits cs of None \<Rightarrow> Inl ValueError | Some n \<Rightarrow> Inr (int n))
           else
             (case parse_digits (c # cs) of None \<Rightarrow> Inl ValueError | Some n \<Rightarrow> Inr (int n))))"

text \<open>The list comprehension \<open>[int(arg) for arg in names]\<close>: the first name that is not
  a number raises.\<close>

fun int_each :: "string list \<Rightarrow> exn + int list" where
  "int_each [] = Inr []"
| "int_each (arg # args) =
     (case py_int arg of Inl e \<Rightarrow> Inl e
      | Inr i \<Rightarrow> (case int_each args of Inl e \<Rightarrow> Inl e | Inr is \<Rightarrow> Inr (i # is)))"

section \<open>learner.py\<close>

subsection \<open>Data\<close>

text \<open>A value of the metrics mapping: an integer, a float (floats are taken as reals) or
  \<open>np.nan\<close>.\<close>

datatype metric = IntValue int | FloatValue real | NaN

type_synonym report = "string \<Rightarrow> metric option"

text \<open>The handle of a tracking run, with the four attributes \<open>save\<close> reads.\<close>

record wandb_run =
  run_id :: string
  run_project :: string
  run_entity :: string
  run_group :: string

text \<open>
  Modelled from the spec: \<open>WelfordRunningStat\<close> (package \<open>rlgym_ppo.util\<close>) is not among
  the source files. The spec gives it a count, a running mean and a running sum of squared
  deviations, a serialisation \<open>to_json\<close> to a structure of these three and a
  \<open>from_json\<close> that restores exactly from it.
\<close>

record WelfordRunningStat =
  stat_count :: int
  stat_mean :: real
  stat_variance :: real

record running_stats_json =
  json_count :: int
  json_mean :: real
  json_var :: real

definition to_json :: "WelfordRunningStat \<Rightarrow> running_stats_json" where
  "to_json self =
     \<lparr> json_count = stat_count self, json_mean = stat_mean self, json_var = stat_variance self \<rparr>"

definition from_json :: "WelfordRunningStat \<Rightarrow> running_stats_json \<Rightarrow> WelfordRunningStat" where
  "from_json self other_json =
     self\<lparr> stat_count := json_count other_json, stat_mean := json_mean other_json,
           stat_variance := json_var other_json \<rparr>"

text \<open>
  The document \<open>BOOK_KEEPING_VARS.json\<close>. A field stands for the key of the same name;
  the four \<open>wandb_*\<close> keys are written together or not at all, and \<open>None\<close> is JSON's
  \<open>null\<close>. \<open>json.dump\<close> followed by \<open>json.load\<close> is taken to give back the
  document.
\<close>

record wandb_keys =
  wandb_run_id :: string
  wandb_project :: string
  wandb_entity :: string
  wandb_group :: string

record book_keeping_vars =
  json_cumulative_timesteps :: int
  json_cumulative_model_updates :: int
  json_policy_average_reward :: "real option"
  json_epoch :: int
  json_running_stats :: running_stats_json
  json_wandb :: "wandb_keys option"

text \<open>
  The entries of \<open>checkpoints_save_folder\<close>, by name. An entry is a checkpoint folder:
  the model files the PPO learner wrote into it, if any, and the bookkeeping document, if
  written. \<open>'y\<close> is the type of what the PPO learner persists.
\<close>

record 'y checkpoint_folder =
  model_files :: "'y option"
  book_keeping_file :: "book_keeping_vars option"

type_synonym 'y folder = "(string \<times> 'y checkpoint_folder) list"

text \<open>The names of the entries, in the order of their creation, and \<open>os.listdir\<close>,
  which returns them in an order of the system's choosing: the rearrangement it applies
  is a parameter.\<close>

definition entry_names :: "'y folder \<Rightarrow> string list" where
  "entry_names d = map fst d"

definition listdir :: "(string list \<Rightarrow> string list) \<Rightarrow> 'y folder \<Rightarrow> string list" where
  "listdir order d = order (entry_names d)"

definition makedirs :: "string \<Rightarrow> 'y folder \<Rightarrow> 'y folder" where
  "makedirs name d =
     (if name \<in> set (entry_names d) then d
      else d @ [(name, \<lparr> model_files = None, book_keeping_file = None \<rparr>)])"

definition rmtree :: "string \<Rightarrow> 'y folder \<Rightarrow> exn + 'y folder" where
  "rmtree name d =
     (if name \<in> set (entry_names d) then Inr (filter (\<lambda>entry. fst entry \<noteq> name) d)
      else Inl FileNotFoundError)"

definition write_folder ::
  "string \<Rightarrow> ('y checkpoint_folder \<Rightarrow> 'y checkpoint_folder) \<Rightarrow> 'y folder \<Rightarrow> 'y folder" where
  "write_folder name f d = map (\<lambda>entry. if fst entry = name then (fst entry, f (snd entry)) else entry) d"

text \<open>What the process does that leaves no mark on the object: lines printed, a
  traceback printed, a metrics mapping handed to the reporting sink, a run finished.\<close>

datatype event =
    Printed string
  | PrintedTraceback exn
  | ReportedMetrics report "wandb_run option"
  | FinishedRun wandb_run

text \<open>The collector and the PPO learner, with the attributes \<open>learner.py\<close> reads and
  writes; \<open>'x\<close> and \<open>'y\<close> are their own states (processes, networks).\<close>

record 'x BatchedAgentManager =
  cumulative_timesteps :: int
  average_reward :: "real option"
  processes :: 'x

record 'y PPOLearner =
  cumulative_model_updates :: int
  networks :: 'y

text \<open>
  A \<open>Learner\<close> object, with the parts of its process that its methods act on: the
  entries of the save folder, the events so far and the number of clock readings taken.
\<close>

record ('a, 'g, 'x, 'y) Learner =
  n_checkpoints_to_keep :: int
  save_every_ts :: int
  timestep_limit :: int
  ts_per_epoch :: int
  gae_lambda :: real
  gae_gamma :: real
  return_stats :: WelfordRunningStat
  epoch :: int
  experience_buffer :: "('a, 'g) ExperienceBuffer"
  agent :: "'x BatchedAgentManager"
  ppo_learner :: "'y PPOLearner"
  wandb_run :: "wandb_run option"
  save_folder :: "'y folder"
  events :: "event list"
  clock :: nat

text \<open>The experience tuple of the collector: states, actions, log probabilities,
  rewards, next states, dones, truncated.\<close>

type_synonym 'a experience =
  "'a list \<times> 'a list \<times> 'a list \<times> 'a list \<times> 'a list \<times> 'a list \<times> 'a list"

text \<open>
  The collaborators of the learner are outside the source files read here; each is a
  parameter of the model and may raise. \<open>collect_timesteps\<close> returns the experience, the
  steps collected and the collection time, and leaves the collector changed;
  \<open>value_net\<close> and \<open>compute_gae\<close> are value prediction and the advantage computation;
  \<open>std\<close> and \<open>increment\<close> belong to the running statistic; \<open>ppo_learn\<close> is
  \<open>PPOLearner.learn\<close>, which may change the PPO learner and the buffer and returns the
  metrics; \<open>report_metrics\<close> is the reporting sink and \<open>perf_counter\<close> the clock, read by
  the number of readings so far; \<open>save_to\<close> gives the model files written and
  \<open>load_from\<close> restores from the model files found; \<open>wandb_init\<close> resumes a tracking
  run, \<open>finish\<close> ends one, and \<open>agent_cleanup\<close> is \<open>BatchedAgentManager.cleanup\<close>.
  \<open>listdir_order\<close> is the order in which the file system lists the names of a folder.
\<close>

record ('a, 'g, 'x, 'y) collaborators =
  collect_timesteps ::
    "'x BatchedAgentManager \<Rightarrow> int \<Rightarrow> (exn + ('a experience \<times> int \<times> real)) \<times> 'x BatchedAgentManager"
  value_net :: "'y \<Rightarrow> 'a list \<Rightarrow> exn + real list"
  compute_gae ::
    "'a list \<Rightarrow> 'a list \<Rightarrow> 'a list \<Rightarrow> real list \<Rightarrow> real \<Rightarrow> real \<Rightarrow> real \<Rightarrow>
     exn + ('a list \<times> 'a list \<times> real list)"
  std :: "WelfordRunningStat \<Rightarrow> real"
  increment :: "WelfordRunningStat \<Rightarrow> real list \<Rightarrow> nat \<Rightarrow> exn + WelfordRunningStat"
  ppo_learn ::
    "'y PPOLearner \<Rightarrow> ('a, 'g) ExperienceBuffer \<Rightarrow>
     (exn + report) \<times> 'y PPOLearner \<times> ('a, 'g) ExperienceBuffer"
  report_metrics :: "report \<Rightarrow> wandb_run option \<Rightarrow> exn option"
  perf_counter :: "nat \<Rightarrow> real"
  save_to :: "'y PPOLearner \<Rightarrow> exn + 'y"
  load_from :: "'y PPOLearner \<Rightarrow> 'y option \<Rightarrow> exn + 'y PPOLearner"
  wandb_init :: "wandb_keys \<Rightarrow> exn + wandb_run"
  finish :: "wandb_run \<Rightarrow> exn option"
  agent_cleanup :: "'x BatchedAgentManager \<Rightarrow> exn option \<times> 'x BatchedAgentManager"
  listdir_order :: "string list \<Rightarrow> string list"

definition print :: "string \<Rightarrow> ('a, 'g, 'x, 'y) Learner \<Rightarrow> ('a, 'g, 'x, 'y) Learner" where
  "print line self = self\<lparr> events := events self @ [Printed line] \<rparr>"

subsection \<open>Checkpoints\<close>

text \<open>The loop of \<open>save\<close> over the checkpoints to delete: \<open>shutil.rmtree\<close> on the folder
  named \<open>str(checkpoint_name)\<close>, stopping at the first failure.\<close>

fun rmtree_each :: "int list \<Rightarrow> 'y folder \<Rightarrow> exn option \<times> 'y folder" where
  "rmtree_each [] d = (None, d)"
| "rmtree_each (checkpoint_name # rest) d =
     (case rmtree (py_str checkpoint_name) d of
        Inl e \<Rightarrow> (Some e, d)
      | Inr d' \<Rightarrow> rmtree_each rest d')"

text \<open>Lines 307 to 315 of \<open>save\<close>: list the save folder, and when it holds more entries
  than are to be kept, sort the numbers and remove all but the last
  \<open>n_checkpoints_to_keep\<close> (the slice \<open>existing_checkpoints[:-n_checkpoints_to_keep]\<close>).\<close>

definition remove_old_checkpoints ::
  "(string list \<Rightarrow> string list) \<Rightarrow> int \<Rightarrow> 'y folder \<Rightarrow> exn option \<times> 'y folder" where
  "remove_old_checkpoints order keep d =
     (case int_each (listdir order d) of
        Inl e \<Rightarrow> (Some e, d)
      | Inr existing_checkpoints \<Rightarrow>
         (if int (length existing_checkpoints) > keep
          then rmtree_each (slice_to (sort existing_checkpoints) (- keep)) d
          else (None, d)))"

definition save ::
  "('a, 'g, 'x, 'y) collaborators \<Rightarrow> ('a, 'g, 'x, 'y) Learner \<Rightarrow> int \<Rightarrow>
   exn option \<times> ('a, 'g, 'x, 'y) Learner" where
  "save cs self cumulative_timesteps' =
     (let folder_path = py_str cumulative_timesteps';
          self = self\<lparr> save_folder := makedirs folder_path (save_folder self) \<rparr>;
          self = print (''Saving checkpoint '' @ py_str cumulative_timesteps' @ ''...'') self
      in case remove_old_checkpoints (listdir_order cs) (n_checkpoints_to_keep self)
                (save_folder self) of
           (Some e, d) \<Rightarrow> (Some e, self\<lparr> save_folder := d \<rparr>)
         | (None, d) \<Rightarrow>
            (let self = self\<lparr> save_folder := makedirs folder_path d \<rparr> in
             case save_to cs (ppo_learner self) of
               Inl e \<Rightarrow> (Some e, self)
             | Inr files \<Rightarrow>
                (let self = self\<lparr> save_folder :=
                       write_folder folder_path (\<lambda>c. c\<lparr> model_files := Some files \<rparr>)
                         (save_folder self) \<rparr>;
                     book_keeping_vars =
                       \<lparr> json_cumulative_timesteps = cumulative_timesteps (agent self),
                         json_cumulative_model_updates =
                           cumulative_model_updates (ppo_learner self),
                         json_policy_average_reward = average_reward (agent self),
                         json_epoch = epoch self,
                         json_running_stats = to_json (return_stats self),
                         json_wandb = None \<rparr>;
                     book_keeping_vars =
                       (case wandb_run self of
                          None \<Rightarrow> book_keeping_vars
                        | Some run \<Rightarrow>
                           book_keeping_vars\<lparr> json_wandb :=
                             Some \<lparr> wandb_run_id = run_id run, wandb_project = run_project run,
                                    wandb_entity = run_entity run,
                                    wandb_group = run_group run \<rparr> \<rparr>);
                     self = self\<lparr> save_folder :=
                       write_folder folder_path
                         (\<lambda>c. c\<lparr> book_keeping_file := Some book_keeping_vars \<rparr>)
                         (save_folder self) \<rparr>;
                     self = print (''Checkpoint '' @ py_str cumulative_timesteps' @ '' saved!'' @ [CHR 0x0A]) self
                 in (None, self))))"

text \<open>The document that \<open>save\<close> writes for an object.\<close>

definition book_keeping_of :: "('a, 'g, 'x, 'y) Learner \<Rightarrow> book_keeping_vars" where
  "book_keeping_of self =
     \<lparr> json_cumulative_timesteps = cumulative_timesteps (agent self),
       json_cumulative_model_updates = cumulative_model_updates (ppo_learner self),
       json_policy_average_reward = average_reward (agent self),
       json_epoch = epoch self,
       json_running_stats = to_json (return_stats self),
       json_wandb = map_option (\<lambda>run. \<lparr> wandb_run_id = run_id run,
           wandb_project = run_project run, wandb_entity = run_entity run,
           wandb_group = run_group run \<rparr>) (wandb_run self) \<rparr>"

text \<open>\<open>load\<close> takes the name of the checkpoint folder inside the save folder. It returns
  \<open>wandb_loaded\<close> or the exception raised, and the object as the call leaves it.\<close>

definition load ::
  "('a, 'g, 'x, 'y) collaborators \<Rightarrow> ('a, 'g, 'x, 'y) Learner \<Rightarrow> string \<Rightarrow> bool \<Rightarrow>
   (exn + bool) \<times> ('a, 'g, 'x, 'y) Learner" where
  "load cs self folder_path load_wandb =
     (case map_of (save_folder self) folder_path of
        None \<Rightarrow> (Inl AssertionError, self)
      | Some folder \<Rightarrow>
         (let self = print (''Loading from checkpoint at '' @ folder_path) self in
          case load_from cs (ppo_learner self) (model_files folder) of
            Inl e \<Rightarrow> (Inl e, self)
          | Inr ppo \<Rightarrow>
             (let self = self\<lparr> ppo_learner := ppo \<rparr> in
              case book_keeping_file folder of
                None \<Rightarrow> (Inl FileNotFoundError, self)
              | Some book_keeping_vars \<Rightarrow>
                 (let self = self\<lparr> agent := (agent self)\<lparr> cumulative_timesteps :=
                                 json_cumulative_timesteps book_keeping_vars \<rparr> \<rparr>;
                      self = self\<lparr> agent := (agent self)\<lparr> average_reward :=
                                 json_policy_average_reward book_keeping_vars \<rparr> \<rparr>;
                      self = self\<lparr> ppo_learner := (ppo_learner self)\<lparr> cumulative_model_updates :=
                                 json_cumulative_model_updates book_keeping_vars \<rparr> \<rparr>;
                      self = self\<lparr> return_stats :=
                                 from_json (return_stats self) (json_running_stats book_keeping_vars) \<rparr>;
                      self = self\<lparr> epoch := json_epoch book_keeping_vars \<rparr>
                  in case json_wandb book_keeping_vars of
                       None \<Rightarrow> (Inr False, print ''Checkpoint loaded!'' self)
                     | Some keys \<Rightarrow>
                        (if load_wandb then
                           (case wandb_init cs keys of
                              Inl e \<Rightarrow> (Inl e, self)
                            | Inr run \<Rightarrow>
                               (Inr True, print ''Checkpoint loaded!'' (self\<lparr> wandb_run := Some run \<rparr>)))
                         else (Inr False, print ''Checkpoint loaded!'' self))))))"

text \<open>Saving a list of checkpoints one after the other, up to the first failure.\<close>

fun save_each ::
  "('a, 'g, 'x, 'y) collaborators \<Rightarrow> ('a, 'g, 'x, 'y) Learner \<Rightarrow> int list \<Rightarrow>
   exn option \<times> ('a, 'g, 'x, 'y) Learner" where
  "save_each cs self [] = (None, self)"
| "save_each cs self (k # ks) =
     (case save cs self k of
        (Some e, self') \<Rightarrow> (Some e, self')
      | (None, self') \<Rightarrow> save_each cs self' ks)"

subsection \<open>The epoch loop\<close>

text \<open>\<open>cleanup\<close>. The agent of a \<open>Learner\<close> is the \<open>BatchedAgentManager\<close> its
  constructor built, so the test on its type holds.\<close>

definition cleanup ::
  "('a, 'g, 'x, 'y) collaborators \<Rightarrow> 'g numpy_random \<Rightarrow> ('a, 'g, 'x, 'y) Learner \<Rightarrow>
   exn option \<times> ('a, 'g, 'x, 'y) Learner" where
  "cleanup cs np self =
     (case (case wandb_run self of
              None \<Rightarrow> (None, self)
            | Some run \<Rightarrow> (finish cs run, self\<lparr> events := events self @ [FinishedRun run] \<rparr>)) of
        (Some e, self) \<Rightarrow> (Some e, self)
      | (None, self) \<Rightarrow>
         (case agent_cleanup cs (agent self) of
            (Some e, agent') \<Rightarrow> (Some e, self\<lparr> agent := agent' \<rparr>)
          | (None, agent') \<Rightarrow>
             (None, self\<lparr> agent := agent',
                          experience_buffer := clear np (experience_buffer self) \<rparr>)))"

definition add_new_experience ::
  "('a, 'g, 'x, 'y) collaborators \<Rightarrow> ('a, 'g, 'x, 'y) Learner \<Rightarrow> 'a experience \<Rightarrow>
   exn option \<times> ('a, 'g, 'x, 'y) Learner" where
  "add_new_experience cs self experience =
     (case experience of (states', actions', log_probs', rewards', next_states', dones', truncated') \<Rightarrow>
        (if next_states' = [] then (Some IndexError, self)
         else
           let val_inp = states' @ [last next_states'] in
           case value_net cs (networks (ppo_learner self)) val_inp of
             Inl e \<Rightarrow> (Some e, self)
           | Inr val_preds \<Rightarrow>
              (case compute_gae cs rewards' dones' truncated' val_preds (gae_gamma self)
                      (gae_lambda self) (std cs (return_stats self)) of
                 Inl e \<Rightarrow> (Some e, self)
               | Inr (value_targets, advantages', returns) \<Rightarrow>
                  (case increment cs (return_stats self) returns (length returns) of
                     Inl e \<Rightarrow> (Some e, self)
                   | Inr stats \<Rightarrow>
                      (None, self\<lparr> return_stats := stats,
                                   experience_buffer :=
                                     submit_experience (experience_buffer self) states' actions'
                                       log_probs' rewards' next_states' dones' truncated'
                                       value_targets advantages' \<rparr>)))))"

text \<open>Lines 208 to 222 of \<open>_learn\<close>: the metrics mapping of one epoch, from the epoch
  number, the PPO learner's report, the collector's counters and the times measured.\<close>

definition make_report ::
  "int \<Rightarrow> report \<Rightarrow> int \<Rightarrow> real option \<Rightarrow> real \<Rightarrow> int \<Rightarrow> real \<Rightarrow> exn + report" where
  "make_report epoch' ppo_report cumulative_timesteps' average_reward' epoch_time steps_collected
       collection_time =
     (let report = Map.empty ++ ppo_report;
          report = (if epoch' < 1 then report(''Value Function Loss'' \<mapsto> NaN) else report);
          report = report(''Cumulative Timesteps'' \<mapsto> IntValue cumulative_timesteps');
          report = report(''Total Iteration Time'' \<mapsto> FloatValue epoch_time);
          report = report(''Timesteps Collected'' \<mapsto> IntValue steps_collected);
          report = report(''Timestep Collection Time'' \<mapsto> FloatValue collection_time);
          report = report(''Timestep Consumption Time'' \<mapsto> FloatValue (epoch_time - collection_time))
      in if collection_time = 0 then Inl ZeroDivisionError
         else
           let report = report(''Collected Steps per Second'' \<mapsto>
                 FloatValue (real_of_int steps_collected / collection_time))
           in if epoch_time = 0 then Inl ZeroDivisionError
              else
                let report = report(''Overall Steps per Second'' \<mapsto>
                      FloatValue (real_of_int steps_collected / epoch_time))
                in Inr (case average_reward' of
                          Some r \<Rightarrow> report(''Policy Reward'' \<mapsto> FloatValue r)
                        | None \<Rightarrow> report(''Policy Reward'' \<mapsto> NaN)))"

text \<open>One pass through the body of the \<open>while\<close> loop of \<open>_learn\<close>.\<close>

definition learn_iteration ::
  "('a, 'g, 'x, 'y) collaborators \<Rightarrow> ('a, 'g, 'x, 'y) Learner \<Rightarrow>
   exn option \<times> ('a, 'g, 'x, 'y) Learner" where
  "learn_iteration cs self =
     (let epoch_start = perf_counter cs (clock self);
          self = self\<lparr> clock := Suc (clock self) \<rparr>
      in case collect_timesteps cs (agent self) (ts_per_epoch self) of
           (Inl e, agent') \<Rightarrow> (Some e, self\<lparr> agent := agent' \<rparr>)
         | (Inr (experience, steps_collected, collection_time), agent') \<Rightarrow>
            (case add_new_experience cs (self\<lparr> agent := agent' \<rparr>) experience of
               (Some e, self) \<Rightarrow> (Some e, self)
             | (None, self) \<Rightarrow>
                (case ppo_learn cs (ppo_learner self) (experience_buffer self) of
                   (result, ppo, buffer) \<Rightarrow>
                    (let self = self\<lparr> ppo_learner := ppo, experience_buffer := buffer \<rparr> in
                     case result of
                       Inl e \<Rightarrow> (Some e, self)
                     | Inr ppo_report \<Rightarrow>
                        (let epoch_stop = perf_counter cs (clock self);
                             self = self\<lparr> clock := Suc (clock self) \<rparr>;
                             epoch_time = epoch_stop - epoch_start
                         in case make_report (epoch self) ppo_report
                                   (cumulative_timesteps (agent self)) (average_reward (agent self))
                                   epoch_time steps_collected collection_time of
                              Inl e \<Rightarrow> (Some e, self)
                            | Inr report \<Rightarrow>
                               (let self = self\<lparr> events := events self @
                                      [ReportedMetrics report (wandb_run self)] \<rparr> in
                                case report_metrics cs report (wandb_run self) of
                                  Some e \<Rightarrow> (Some e, self)
                                | None \<Rightarrow>
                                   (if save_every_ts self = 0 then (Some ZeroDivisionError, self)
                                    else
                                      case (if epoch self * ts_per_epoch self mod save_every_ts self = 0
                                            then save cs self (epoch self * ts_per_epoch self)
                                            else (None, self)) of
                                        (Some e, self) \<Rightarrow> (Some e, self)
                                      | (None, self) \<Rightarrow>
                                         (None, self\<lparr> epoch := epoch self + 1 \<rparr>))))))))"

text \<open>\<open>_learn\<close>: the loop, then \<open>cleanup\<close>. The result is \<open>None\<close> when the loop never
  ends, and otherwise the exception raised, if any, with the object as it is then.\<close>

partial_function (option) learn_inner ::
  "('a, 'g, 'x, 'y) collaborators \<Rightarrow> 'g numpy_random \<Rightarrow> ('a, 'g, 'x, 'y) Learner \<Rightarrow>
   (exn option \<times> ('a, 'g, 'x, 'y) Learner) option" where
  "learn_inner cs np self =
     (if cumulative_timesteps (agent self) < timestep_limit self then
        (case learn_iteration cs self of
           (Some e, self') \<Rightarrow> Some (Some e, self')
         | (None, self') \<Rightarrow> learn_inner cs np self')
      else Some (cleanup cs np self))"

definition error_banner :: string where
  "error_banner = [CHR 0x0A, CHR 0x0A] @ ''LEARNING LOOP ENCOUNTERED AN ERROR'' @ [CHR 0x0A]"

text \<open>\<open>learn\<close>: \<open>try: self._learn()\<close>, \<open>except Exception:\<close> print the banner and the
  traceback, \<open>finally: self.cleanup()\<close>. An exception of the \<open>finally\<close> block replaces
  the pending one; a pending exception that the \<open>except\<close> clause did not take is raised
  again after the \<open>finally\<close> block.\<close>

definition learn ::
  "('a, 'g, 'x, 'y) collaborators \<Rightarrow> 'g numpy_random \<Rightarrow> ('a, 'g, 'x, 'y) Learner \<Rightarrow>
   (exn option \<times> ('a, 'g, 'x, 'y) Learner) option" where
  "learn cs np self =
     (case learn_inner cs np self of
        None \<Rightarrow> None
      | Some (None, self) \<Rightarrow> Some (cleanup cs np self)
      | Some (Some e, self) \<Rightarrow>
         (if is_Exception e then
            Some (cleanup cs np
                    (self\<lparr> events := events self @
                       [Printed error_banner, PrintedTraceback e] \<rparr>))
          else
            (case cleanup cs np self of
               (Some e', self') \<Rightarrow> Some (Some e', self')
             | (None, self') \<Rightarrow> Some (Some e, self'))))"

text \<open>The object after \<open>n\<close> passes through the loop body, each entered under the loop
  condition and completed without an exception.\<close>

fun run_epochs ::
  "('a, 'g, 'x, 'y) collaborators \<Rightarrow> nat \<Rightarrow> ('a, 'g, 'x, 'y) Learner \<Rightarrow>
   ('a, 'g, 'x, 'y) Learner option" where
  "run_epochs cs 0 self = Some self"
| "run_epochs cs (Suc n) self =
     (if cumulative_timesteps (agent self) < timestep_limit self then
        (case learn_iteration cs self of
           (Some e, self') \<Rightarrow> None
         | (None, self') \<Rightarrow> run_epochs cs n self')
      else None)"

text \<open>The exceptions whose traceback was printed, in order.\<close>

fun tracebacks :: "event list \<Rightarrow> exn list" where
  "tracebacks [] = []"
| "tracebacks (PrintedTraceback e # evs) = e # tracebacks evs"
| "tracebacks (ev # evs) = tracebacks evs"

subsection \<open>Concrete collaborators for runs on concrete inputs\<close>

text \<open>
  A collector that hands out two transitions per call, numbered after the timesteps
  collected so far, in one second; when given an exception it raises it once two
  timesteps have been collected. The other collaborators succeed: the value net predicts
  zero, the advantage computation returns the rewards, the PPO learner counts its updates
  and reports a value function loss of one half, the sink accepts every report, the clock
  advances by one per reading, and the file system lists a folder newest entry first.
\<close>

definition demo_collaborators :: "exn option \<Rightarrow> (nat, nat, unit, nat) collaborators" where
  "demo_collaborators failure =
     \<lparr> collect_timesteps = (\<lambda>ag n.
         let t = nat (cumulative_timesteps ag); e = [t..<t + 2] in
         case failure of
           Some exc \<Rightarrow>
             if 2 \<le> cumulative_timesteps ag then (Inl exc, ag)
             else (Inr ((e, e, e, e, e, e, e), 2, 1), ag\<lparr> cumulative_timesteps := cumulative_timesteps ag + 2 \<rparr>)
         | None \<Rightarrow>
             (Inr ((e, e, e, e, e, e, e), 2, 1), ag\<lparr> cumulative_timesteps := cumulative_timesteps ag + 2 \<rparr>)),
       value_net = (\<lambda>net inp. Inr (map (\<lambda>x. 0) inp)),
       compute_gae = (\<lambda>rews dns trs preds gamma lmbda s. Inr (rews, rews, map real rews)),
       std = (\<lambda>stats. 1),
       increment = (\<lambda>stats returns n. Inr (stats\<lparr> stat_count := stat_count stats + int n \<rparr>)),
       ppo_learn = (\<lambda>ppo buffer.
         (Inr [''Value Function Loss'' \<mapsto> FloatValue (1 / 2)],
          ppo\<lparr> cumulative_model_updates := cumulative_model_updates ppo + 1 \<rparr>, buffer)),
       report_metrics = (\<lambda>report run. None),
       perf_counter = (\<lambda>k. real k),
       save_to = (\<lambda>ppo. Inr (networks ppo)),
       load_from = (\<lambda>ppo files.
         case files of None \<Rightarrow> Inl FileNotFoundError | Some y \<Rightarrow> Inr (ppo\<lparr> networks := y \<rparr>)),
       wandb_init = (\<lambda>keys.
         Inr \<lparr> run_id = wandb_run_id keys, run_project = wandb_project keys,
               run_entity = wandb_entity keys, run_group = wandb_group keys \<rparr>),
       finish = (\<lambda>run. None),
       agent_cleanup = (\<lambda>ag. (None, ag)),
       listdir_order = rev \<rparr>"

text \<open>A learner before its first epoch: limit of four timesteps, two per epoch, a
  checkpoint every two timesteps and the given number of checkpoints kept, no tracking
  run, an empty save folder.\<close>

definition demo_learner :: "int \<Rightarrow> (nat, nat, unit, nat) Learner" where
  "demo_learner keep =
     \<lparr> n_checkpoints_to_keep = keep, save_every_ts = 2, timestep_limit = 4, ts_per_epoch = 2,
       gae_lambda = 95 / 100, gae_gamma = 99 / 100,
       return_stats = \<lparr> stat_count = 0, stat_mean = 0, stat_variance = 0 \<rparr>,
       epoch = 0,
       experience_buffer = empty_buffer,
       agent = \<lparr> cumulative_timesteps = 0, average_reward = None, processes = () \<rparr>,
       ppo_learner = \<lparr> cumulative_model_updates = 0, networks = 0 \<rparr>,
       wandb_run = None,
       save_folder = [],
       events = [],
       clock = 0 \<rparr>"

text \<open>The same learner with a save folder that already holds empty folders of the
  given names.\<close>

definition demo_holding :: "int \<Rightarrow> string list \<Rightarrow> (nat, nat, unit, nat) Learner" where
  "demo_holding keep names =
     (demo_learner keep)\<lparr> save_folder :=
        map (\<lambda>name. (name, \<lparr> model_files = None, book_keeping_file = None \<rparr>)) names \<rparr>"


definition demo_agent :: "unit BatchedAgentManager" where
  "demo_agent = \<lparr> cumulative_timesteps = 2, average_reward = None, processes = () \<rparr>"

text \<open>A learner in its fourth epoch, with six timesteps collected and three updates
  made.\<close>

definition demo_trained :: "(nat, nat, unit, nat) Learner" where
  "demo_trained =
     (demo_learner 5)\<lparr>
        epoch := 3,
        agent := \<lparr> cumulative_timesteps = 6, average_reward = Some (3 / 2), processes = () \<rparr>,
        ppo_learner := \<lparr> cumulative_model_updates = 3, networks = 7 \<rparr>,
        return_stats := \<lparr> stat_count = 6, stat_mean = 1 / 2, stat_variance = 1 / 4 \<rparr> \<rparr>"

section \<open>Properties of the experience buffer\<close>


lemma slice_from_pos: "0 < i \<Longrightarrow> slice_from xs i = drop (nat i) xs"
  by (auto simp: slice_from_def slice_bound_def Let_def min_def)

lemma slice_nonneg:
  assumes "0 \<le> s" "s \<le> e"
  shows "slice xs s e = take (nat e - nat s) (drop (nat s) xs)"
proof (cases "nat s < length xs")
  case True
  with assms show ?thesis
    by (auto simp: slice_def slice_bound_def Let_def min_def)
next
  case False
  with assms show ?thesis
    by (simp add: slice_def slice_bound_def Let_def min_def)
qed

lemma slice_gather:
  "slice (gather idx t) (int i * int bs) (int i * int bs + int bs) = gather (batch_indices idx bs i) t"
proof -
  have "slice (gather idx t) (int i * int bs) (int i * int bs + int bs)
        = take (nat (int i * int bs + int bs) - nat (int i * int bs)) (drop (nat (int i * int bs)) (gather idx t))"
    by (rule slice_nonneg) simp_all
  also have "nat (int i * int bs) = i * bs"
    by (simp add: nat_mult_distrib)
  also have "nat (int i * int bs + int bs) = i * bs + bs"
    by (simp add: nat_add_distrib nat_mult_distrib)
  finally show ?thesis
    by (simp add: gather_def batch_indices_def take_map drop_map)
qed

lemma length_gather: "length (gather idx t) = length idx"
  by (simp add: gather_def)

lemma index_select_gather:
  "list_all (\<lambda>i. i < length t) idx \<Longrightarrow> index_select t idx = Inr (gather idx t)"
  by (simp add: index_select_def gather_def)

lemma concat_batch_indices:
  "concat (map (batch_indices idx bs) [0..<n]) = take (n * bs) idx"
proof (induction n)
  case 0
  show ?case by simp
next
  case (Suc n)
  have "take (n * bs) idx @ take bs (drop (n * bs) idx) = take (n * bs + bs) idx"
    by (simp add: take_add)
  with Suc show ?case
    by (simp add: batch_indices_def add.commute)
qed

lemma length_batch_indices:
  "i < length idx div bs \<Longrightarrow> length (batch_indices idx bs i) = bs"
proof -
  assume "i < length idx div bs"
  then have "Suc i \<le> length idx div bs" by simp
  then have "Suc i * bs \<le> length idx div bs * bs" by (rule mult_le_mono1)
  also have "\<dots> \<le> length idx" by simp
  finally show ?thesis by (simp add: batch_indices_def)
qed


lemma get_all_batches_shuffled_aligned:
  assumes bs: "1 \<le> batch_size"
    and al: "shuffle_aligned self"
    and perm: "mset (shuffled_indices np self) = mset [0..<length (rewards self)]"
  shows "fst (get_all_batches_shuffled np self batch_size) =
     Inr (map (\<lambda>i. map (gather (batch_indices (shuffled_indices np self) (nat batch_size) i))
                   [actions self, log_probs self, states self, values self, advantages self])
            [0..<length (rewards self) div nat batch_size])"
proof -
  define idx where "idx = shuffled_indices np self"
  define N where "N = length (rewards self)"
  obtain g where sh: "shuffle np (rng self) [0..<length (rewards self)] = (idx, g)"
    by (cases "shuffle np (rng self) [0..<length (rewards self)]")
       (simp add: idx_def shuffled_indices_def)
  from perm have set_idx: "set idx = {0..<N}"
    unfolding idx_def N_def by (metis mset_eq_setD set_upt)
  from perm have len_idx: "length idx = N"
    unfolding idx_def N_def by (metis mset_eq_length length_upt diff_zero)
  have inr: "list_all (\<lambda>i. i < N) idx"
    using set_idx by (simp add: list_all_iff)
  have sel: "index_select t idx = Inr (gather idx t)" if "length t = N" for t :: "'a list"
    using inr that by (simp add: index_select_gather)
  from al have lens: "length (actions self) = N" "length (log_probs self) = N"
    "length (states self) = N" "length (values self) = N" "length (advantages self) = N"
    by (simp_all add: shuffle_aligned_def N_def)
  have n: "nat (int N div batch_size) = N div nat batch_size"
    using bs by (simp add: nat_div_distrib)
  have b: "batch_size = int (nat batch_size)" using bs by simp
  have row: "slice (gather idx t) (int i * batch_size) (int i * batch_size + batch_size)
        = gather (batch_indices idx (nat batch_size) i) t" for i and t :: "'a list"
    using slice_gather [of idx t i "nat batch_size"] b by simp
  show ?thesis
    using bs unfolding get_all_batches_shuffled_def sh
    by (simp add: sel lens Let_def py_range_def length_gather len_idx n row
        idx_def [symmetric] N_def [symmetric] comp_def)
qed


text \<open>Claim C3. On a buffer holding \<open>N\<close> transitions, with a batch size of at least one
  and a generator whose shuffle permutes the index list, \<open>get_all_batches_shuffled\<close>
  returns \<open>N div batch_size\<close> batches. Batch \<open>i\<close> is the five tensors
  gathered at the \<open>i\<close>-th run of \<open>batch_size\<close> shuffled positions, so each of
  its tensors has exactly \<open>batch_size\<close> rows. The positions used by the batches are
  pairwise distinct and resident, and the last \<open>N mod batch_size\<close> shuffled positions
  occur in no batch.\<close>

theorem minibatch_partition:
  assumes bs: "1 \<le> batch_size"
    and al: "shuffle_aligned self"
    and perm: "mset (shuffled_indices np self) = mset [0..<length (rewards self)]"
  shows "\<exists>batches.
     fst (get_all_batches_shuffled np self batch_size) = Inr batches \<and>
     length batches = length (rewards self) div nat batch_size \<and>
     (\<forall>i<length batches.
        batches ! i =
          map (gather (batch_indices (shuffled_indices np self) (nat batch_size) i))
            [actions self, log_probs self, states self, values self, advantages self] \<and>
        length (batch_indices (shuffled_indices np self) (nat batch_size) i) = nat batch_size \<and>
        list_all (\<lambda>t. length t = nat batch_size) (batches ! i)) \<and>
     distinct (concat (map (batch_indices (shuffled_indices np self) (nat batch_size))
                 [0..<length batches])) \<and>
     set (concat (map (batch_indices (shuffled_indices np self) (nat batch_size))
            [0..<length batches])) \<subseteq> {0..<length (rewards self)} \<and>
     set (concat (map (batch_indices (shuffled_indices np self) (nat batch_size))
            [0..<length batches])) \<inter>
       set (drop (length batches * nat batch_size) (shuffled_indices np self)) = {} \<and>
     length (drop (length batches * nat batch_size) (shuffled_indices np self)) =
       length (rewards self) mod nat batch_size"
proof -
  define idx where "idx = shuffled_indices np self"
  define N where "N = length (rewards self)"
  define k where "k = nat batch_size"
  define batches where "batches = map (\<lambda>i. map (gather (batch_indices idx k i))
       [actions self, log_probs self, states self, values self, advantages self]) [0..<N div k]"
  have res: "fst (get_all_batches_shuffled np self batch_size) = Inr batches"
    unfolding batches_def idx_def N_def k_def
    by (rule get_all_batches_shuffled_aligned [OF bs al perm])
  have len: "length batches = N div k"
    by (simp add: batches_def)
  from perm have dist: "distinct idx"
    unfolding idx_def by (metis mset_eq_imp_distinct_iff distinct_upt)
  from perm have set_idx: "set idx = {0..<N}"
    unfolding idx_def N_def by (metis mset_eq_setD set_upt)
  from perm have len_idx: "length idx = N"
    unfolding idx_def N_def by (metis mset_eq_length length_upt diff_zero)
  have each: "batches ! i = map (gather (batch_indices idx k i))
            [actions self, log_probs self, states self, values self, advantages self] \<and>
        length (batch_indices idx k i) = k \<and>
        list_all (\<lambda>t. length t = k) (batches ! i)" if "i < length batches" for i
  proof -
    from that have i: "i < N div k" by (simp add: len)
    then have l: "length (batch_indices idx k i) = k"
      by (simp add: length_batch_indices len_idx)
    from i have "batches ! i = map (gather (batch_indices idx k i))
            [actions self, log_probs self, states self, values self, advantages self]"
      by (simp add: batches_def)
    with l show ?thesis by (simp add: length_gather)
  qed
  have cc: "concat (map (batch_indices idx k) [0..<length batches]) = take (N div k * k) idx"
    by (simp add: concat_batch_indices len)
  have d: "distinct (concat (map (batch_indices idx k) [0..<length batches]))"
    using dist by (simp add: cc)
  have sub: "set (concat (map (batch_indices idx k) [0..<length batches])) \<subseteq> {0..<N}"
    unfolding cc using set_idx set_take_subset by fastforce
  have "set (take (N div k * k) idx) \<inter> set (drop (N div k * k) idx) = {}"
    using dist by (rule set_take_disj_set_drop_if_distinct) simp
  then have disj: "set (concat (map (batch_indices idx k) [0..<length batches])) \<inter>
      set (drop (length batches * k) idx) = {}"
    unfolding len concat_batch_indices .
  have rest: "length (drop (length batches * k) idx) = N mod k"
    by (simp add: len len_idx minus_div_mult_eq_mod)
  from each have each_all: "\<forall>i<length batches.
      batches ! i = map (gather (batch_indices idx k i))
            [actions self, log_probs self, states self, values self, advantages self] \<and>
        length (batch_indices idx k i) = k \<and>
        list_all (\<lambda>t. length t = k) (batches ! i)"
    by blast
  from res len each_all d sub disj rest show ?thesis
    unfolding idx_def N_def k_def by blast
qed

text \<open>Claim C10. Whatever the buffer and the batch size, and whether the call returns or
  raises, \<open>get_all_batches_shuffled\<close> leaves the buffer as it was except for the
  generator, which has made exactly one shuffle of the resident index list. When the batch
  size exceeds the resident length (an empty buffer included) the call returns the empty
  list of batches.\<close>

theorem shuffle_frame:
  "snd (get_all_batches_shuffled np self batch_size) =
     self\<lparr> rng := snd (shuffle np (rng self) [0..<length (rewards self)]) \<rparr> \<and>
   (shuffle_aligned self \<and>
    mset (shuffled_indices np self) = mset [0..<length (rewards self)] \<and>
    int (length (rewards self)) < batch_size \<longrightarrow>
    fst (get_all_batches_shuffled np self batch_size) = Inr [])"
proof
  show "snd (get_all_batches_shuffled np self batch_size) =
     self\<lparr> rng := snd (shuffle np (rng self) [0..<length (rewards self)]) \<rparr>"
    by (simp add: get_all_batches_shuffled_def Let_def split: prod.splits sum.splits)
next
  show "shuffle_aligned self \<and>
    mset (shuffled_indices np self) = mset [0..<length (rewards self)] \<and>
    int (length (rewards self)) < batch_size \<longrightarrow>
    fst (get_all_batches_shuffled np self batch_size) = Inr []"
  proof
    assume a: "shuffle_aligned self \<and>
      mset (shuffled_indices np self) = mset [0..<length (rewards self)] \<and>
      int (length (rewards self)) < batch_size"
    then have bs: "1 \<le> batch_size" by linarith
    from a have "length (rewards self) < nat batch_size" by linarith
    then have "length (rewards self) div nat batch_size = 0" by simp
    with get_all_batches_shuffled_aligned [OF bs, of self np] a show
      "fst (get_all_batches_shuffled np self batch_size) = Inr []" by simp
  qed
qed


lemma rng_clamp_size: "rng (clamp_size b) = rng b"
  by (simp add: clamp_size_def Let_def)

lemma rng_submit: "rng (submit b x) = rng b"
  by (induction b x rule: submit.induct) (simp add: submit_experience_def rng_clamp_size)

lemma rng_submit_all: "rng (submit_all b xs) = rng b"
  by (induction xs arbitrary: b) (simp_all add: rng_submit)

lemma clamp_size_device: "clamp_size (b\<lparr>device := d\<rparr>) = (clamp_size b)\<lparr>device := d\<rparr>"
  by (simp add: clamp_size_def Let_def)

lemma submit_device: "submit (b\<lparr>device := d\<rparr>) x = (submit b x)\<lparr>device := d\<rparr>"
  by (induction b x rule: submit.induct) (simp add: submit_experience_def clamp_size_def Let_def)

lemma submit_all_device: "submit_all (b\<lparr>device := d\<rparr>) xs = (submit_all b xs)\<lparr>device := d\<rparr>"
  by (induction xs arbitrary: b) (simp_all add: submit_device)

lemma init_device:
  "ExperienceBuffer_init np m s d = (ExperienceBuffer_init np m s d')\<lparr>device := d\<rparr>"
  by (simp add: ExperienceBuffer_init_def)

lemma batches_device:
  "fst (get_all_batches_shuffled np (b\<lparr>device := d\<rparr>) bs) = fst (get_all_batches_shuffled np b bs)"
  by (simp add: get_all_batches_shuffled_def Let_def split: prod.splits sum.splits)

lemma perform_frame:
  "max_size (snd (perform np b c)) = max_size b \<and> seed (snd (perform np b c)) = seed b \<and>
   device (snd (perform np b c)) = device b"
proof (cases c)
  case (Submit x)
  then show ?thesis
    by (induction b x rule: submit.induct) (simp add: submit_experience_def clamp_size_def Let_def)
next
  case (Shuffle bs)
  then show ?thesis
    by (simp add: get_all_batches_shuffled_def Let_def split: prod.splits sum.splits)
next
  case Clear
  then show ?thesis by (simp add: clear_def ExperienceBuffer_init_def)
qed

lemma perform_all_frame:
  "max_size (snd (perform_all np b cs)) = max_size b \<and> seed (snd (perform_all np b cs)) = seed b \<and>
   device (snd (perform_all np b cs)) = device b"
proof (induction cs arbitrary: b)
  case Nil
  show ?case by simp
next
  case (Cons c cs)
  obtain out b' where p: "perform np b c = (out, b')" by (cases "perform np b c")
  with perform_frame [of np b c] have f: "max_size b' = max_size b" "seed b' = seed b" "device b' = device b"
    by simp_all
  from Cons.IH [of b'] p f show ?case
    by (cases "perform_all np b' cs") simp
qed

text \<open>Claim C5. After any sequence of submissions, shuffles and clears on a buffer built
  with capacity \<open>m\<close>, seed \<open>s\<close> and device \<open>d\<close>, \<open>clear\<close> gives back
  exactly the freshly built buffer: every later sequence of calls has the same observable
  results and final state as on a new buffer, and all nine tensors are empty.\<close>

theorem clear_is_fresh:
  "clear np (snd (perform_all np (ExperienceBuffer_init np m s d) calls)) =
     ExperienceBuffer_init np m s d \<and>
   perform_all np (clear np (snd (perform_all np (ExperienceBuffer_init np m s d) calls))) calls' =
     perform_all np (ExperienceBuffer_init np m s d) calls' \<and>
   map length
     (let b = clear np (snd (perform_all np (ExperienceBuffer_init np m s d) calls)) in
      [states b, actions b, log_probs b, rewards b, next_states b, dones b, truncated b,
       values b, advantages b]) = replicate 9 0"
proof -
  have "clear np (snd (perform_all np (ExperienceBuffer_init np m s d) calls)) =
     ExperienceBuffer_init np m s d"
    using perform_all_frame [of np "ExperienceBuffer_init np m s d" calls]
    by (simp add: clear_def) (simp add: ExperienceBuffer_init_def)
  then show ?thesis
    by (simp add: Let_def) (simp add: ExperienceBuffer_init_def numeral_eq_Suc)
qed

lemma submit_numbered:
  "submit b (numbered i j) =
     clamp_size (b\<lparr> states := states b @ [i..<j], actions := actions b @ [i..<j],
       log_probs := log_probs b @ [i..<j], rewards := rewards b @ [i..<j],
       next_states := next_states b @ [i..<j], dones := dones b @ [i..<j],
       truncated := truncated b @ [i..<j], values := values b @ [i..<j],
       advantages := advantages b @ [i..<j] \<rparr>)"
  by (simp add: numbered_def submit_experience_def)

lemma upt_append: "i \<le> j \<Longrightarrow> j \<le> k \<Longrightarrow> [i..<j] @ [j..<k] = [i..<k]"
  by (metis le_Suc_ex upt_add_eq_append)

text \<open>Claim C1, at the input where the code departs from it. A buffer of capacity 2 receives
  one matched submission of three transitions: eviction trims eight tensors to two rows and
  leaves \<open>truncated\<close> at three, because \<open>_clamp_size\<close> has no line for it.\<close>

theorem truncated_not_evicted:
  "length (truncated (submit (ExperienceBuffer_init np 2 s d) (numbered 0 3))) = 3 \<and>
   list_all (\<lambda>f. length (f (submit (ExperienceBuffer_init np 2 s d) (numbered 0 3))) = 2)
     [states, actions, log_probs, rewards, next_states, dones, values, advantages]"
  by (simp add: submit_numbered ExperienceBuffer_init_def clamp_size_def slice_from_pos
      drop_upt del: upt_rec_numeral)

text \<open>Claim C2, at the scenario it names. Capacity 500 and three submissions of 200
  transitions: eight tensors hold transitions 100 to 599 in order, while \<open>truncated\<close>
  still holds all 600.\<close>

theorem fifo_scenario_truncated:
  "truncated (submit_all (ExperienceBuffer_init np 500 s d)
      [numbered 0 200, numbered 200 400, numbered 400 600]) = [0..<600] \<and>
   list_all (\<lambda>f. f (submit_all (ExperienceBuffer_init np 500 s d)
      [numbered 0 200, numbered 200 400, numbered 400 600]) = [100..<600])
     [states, actions, log_probs, rewards, next_states, dones, values, advantages]"
  by (simp add: submit_numbered ExperienceBuffer_init_def clamp_size_def slice_from_pos
      upt_append drop_upt del: upt_rec_numeral)


lemma mset_rotate1: "mset (rotate1 xs) = mset xs"
  by (cases xs) simp_all

lemma mset_rotate: "mset (rotate n xs) = mset xs"
  by (induction n) (simp_all add: mset_rotate1)

lemma empty_buffer_fields:
  "rewards empty_buffer = []" "actions empty_buffer = []" "log_probs empty_buffer = []"
  "states empty_buffer = []" "values empty_buffer = []" "advantages empty_buffer = []"
  "rng empty_buffer = 0"
  by (simp_all add: empty_buffer_def ExperienceBuffer_init_def rotating_random_def)

lemma seven_buffer_fields:
  "rewards seven_buffer = [0..<7]" "actions seven_buffer = [0..<7]"
  "log_probs seven_buffer = [0..<7]" "states seven_buffer = [0..<7]"
  "values seven_buffer = [0..<7]" "advantages seven_buffer = [0..<7]"
  "rng seven_buffer = 0"
  by (simp_all add: seven_buffer_def empty_buffer_def submit_numbered ExperienceBuffer_init_def
      clamp_size_def rotating_random_def upt_append del: upt_rec_numeral)

lemma seven_buffer_hyps:
  "shuffle_aligned seven_buffer"
  "mset (shuffled_indices rotating_random seven_buffer) = mset [0..<length (rewards seven_buffer)]"
  by (simp_all add: shuffle_aligned_def shuffled_indices_def seven_buffer_fields
      rotating_random_def mset_rotate1 del: upt_rec_numeral)

theorem minibatch_partition_witness:
  "(1::int) \<le> 3 \<and> shuffle_aligned seven_buffer \<and>
   mset (shuffled_indices rotating_random seven_buffer) = mset [0..<length (rewards seven_buffer)] \<and>
   (\<exists>batches.
     fst (get_all_batches_shuffled rotating_random seven_buffer 3) = Inr batches \<and>
     length batches = 2 \<and>
     list_all (list_all (\<lambda>t. length t = 3)) batches \<and>
     distinct (concat (map (batch_indices (shuffled_indices rotating_random seven_buffer) 3)
                 [0..<length batches])) \<and>
     length (drop (length batches * 3) (shuffled_indices rotating_random seven_buffer)) = 1)"
proof -
  have b: "(1::int) \<le> 3" by simp
  from minibatch_partition [OF b seven_buffer_hyps] obtain batches where
    r: "fst (get_all_batches_shuffled rotating_random seven_buffer 3) = Inr batches"
    and l: "length batches = length (rewards seven_buffer) div nat 3"
    and e: "\<forall>i<length batches. list_all (\<lambda>t. length t = nat 3) (batches ! i)"
    and d: "distinct (concat (map (batch_indices (shuffled_indices rotating_random seven_buffer) (nat 3))
                 [0..<length batches]))"
    and m: "length (drop (length batches * nat 3) (shuffled_indices rotating_random seven_buffer)) =
       length (rewards seven_buffer) mod nat 3"
    by blast
  from l have l2: "length batches = 2" by (simp add: seven_buffer_fields)
  from e have "list_all (list_all (\<lambda>t. length t = 3)) batches"
    by (simp add: list_all_length)
  with r l2 d m b seven_buffer_hyps show ?thesis
    by (simp add: seven_buffer_fields)
qed

theorem shuffle_frame_witness:
  "snd (get_all_batches_shuffled rotating_random empty_buffer 1) = empty_buffer\<lparr> rng := 1 \<rparr> \<and>
   shuffle_aligned empty_buffer \<and>
   mset (shuffled_indices rotating_random empty_buffer) = mset [0..<length (rewards empty_buffer)] \<and>
   int (length (rewards empty_buffer)) < 1 \<and>
   fst (get_all_batches_shuffled rotating_random empty_buffer 1) = Inr []"
proof -
  have h: "shuffle_aligned empty_buffer \<and>
   mset (shuffled_indices rotating_random empty_buffer) = mset [0..<length (rewards empty_buffer)] \<and>
   int (length (rewards empty_buffer)) < 1"
    by (simp add: shuffle_aligned_def shuffled_indices_def empty_buffer_fields rotating_random_def)
  with shuffle_frame [of rotating_random empty_buffer 1] show ?thesis
    by (simp add: empty_buffer_fields rotating_random_def)
qed

theorem clear_is_fresh_witness:
  "clear rotating_random (snd (perform_all rotating_random empty_buffer
       [Submit (numbered 0 4), Shuffle 2, Submit (numbered 4 7)])) = empty_buffer \<and>
   perform_all rotating_random
     (clear rotating_random (snd (perform_all rotating_random empty_buffer
        [Submit (numbered 0 4), Shuffle 2, Submit (numbered 4 7)])))
     [Submit (numbered 0 2), Shuffle 1] =
   perform_all rotating_random empty_buffer [Submit (numbered 0 2), Shuffle 1]"
  using clear_is_fresh [of rotating_random 500 0 "''cpu''"
      "[Submit (numbered 0 4), Shuffle 2, Submit (numbered 4 7)]" "[Submit (numbered 0 2), Shuffle 1]"]
  unfolding empty_buffer_def by blast

text \<open>Matched submissions keep the eight trimmed tensors aligned and within the
  capacity, while \<open>truncated\<close> only grows: once an eviction happens it is longer than the
  others.\<close>

lemma clamp_size_lengths:
  assumes "trimmed_aligned b"
  shows "trimmed_aligned (clamp_size b)"
    and "length (actions (clamp_size b)) = min (length (actions b)) (nat (max_size b))"
    and "truncated (clamp_size b) = truncated b"
  using assms
  by (auto simp: clamp_size_def trimmed_aligned_def Let_def slice_from_pos)

lemma submit_lengths:
  assumes "matched x" and "trimmed_aligned b"
  shows "trimmed_aligned (submit b x)"
    and "length (actions (submit b x)) =
           min (length (actions b) + length (fst (snd x))) (nat (max_size b))"
    and "truncated (submit b x) = truncated b @ fst (snd (snd (snd (snd (snd (snd x))))))"
proof -
  obtain s a l r n d t v adv where x: "x = (s, a, l, r, n, d, t, v, adv)"
    by (cases x) auto
  define b1 where "b1 = b\<lparr> states := states b @ s, actions := actions b @ a,
      log_probs := log_probs b @ l, rewards := rewards b @ r,
      next_states := next_states b @ n, dones := dones b @ d,
      truncated := truncated b @ t, values := values b @ v,
      advantages := advantages b @ adv \<rparr>"
  have s: "submit b x = clamp_size b1"
    by (simp add: x submit_experience_def b1_def)
  from assms have a1: "trimmed_aligned b1"
    by (simp add: x trimmed_aligned_def b1_def)
  from clamp_size_lengths [OF a1] show "trimmed_aligned (submit b x)"
    and "length (actions (submit b x)) =
           min (length (actions b) + length (fst (snd x))) (nat (max_size b))"
    and "truncated (submit b x) = truncated b @ fst (snd (snd (snd (snd (snd (snd x))))))"
    by (simp_all add: s) (simp_all add: b1_def x)
qed

lemma eviction_leaves_truncated:
  assumes "matched x" and "trimmed_aligned b" and "length (truncated b) = length (actions b)"
    and "int (length (actions b) + length (fst (snd x))) > max_size b" and "0 \<le> max_size b"
  shows "length (actions (submit b x)) < length (truncated (submit b x))"
proof -
  obtain s a l r n d t v adv where x: "x = (s, a, l, r, n, d, t, v, adv)"
    by (cases x) auto
  from assms(1) have "length t = length a" by (simp add: x)
  with submit_lengths(2,3) [OF assms(1,2)] assms(3,4,5) show ?thesis
    by (simp add: x)
qed

lemma submit_all_aligned:
  "list_all matched xs \<Longrightarrow> trimmed_aligned b \<Longrightarrow> trimmed_aligned (submit_all b xs)"
  by (induction xs arbitrary: b) (simp_all add: submit_lengths(1))

lemma trimmed_aligned_init: "trimmed_aligned (ExperienceBuffer_init np m s d)"
  by (simp add: trimmed_aligned_def ExperienceBuffer_init_def)

lemma submit_all_shuffle_aligned:
  "list_all matched xs \<Longrightarrow> shuffle_aligned (submit_all (ExperienceBuffer_init np m s d) xs)"
proof -
  assume "list_all matched xs"
  then have "trimmed_aligned (submit_all (ExperienceBuffer_init np m s d) xs)"
    by (rule submit_all_aligned) (rule trimmed_aligned_init)
  then show ?thesis by (simp add: trimmed_aligned_def shuffle_aligned_def)
qed

lemma rng_after_shuffle:
  "rng (snd (get_all_batches_shuffled np b bs)) = snd (shuffle np (rng b) [0..<length (rewards b)])"
  by (simp add: get_all_batches_shuffled_def Let_def split: prod.splits sum.splits)

text \<open>Claim C4, as amended. Two buffers built with the same seed and the same capacity (on
  any devices) and fed the same submissions return the same batches on their first call of
  \<open>get_all_batches_shuffled\<close> with the same batch size, and both leave their generator in
  the state the freshly seeded generator has after shuffling the resident index list. When
  the submissions are well formed, the batch size is positive and the shuffle permutes its
  argument, batch \<open>i\<close> gathers from each of the five returned tensors the rows at
  positions \<open>i * batch_size\<close> up to \<open>(i + 1) * batch_size\<close> of that shuffle.\<close>

theorem shuffle_deterministic:
  "fst (get_all_batches_shuffled np (submit_all (ExperienceBuffer_init np m s d1) subs) bs) =
   fst (get_all_batches_shuffled np (submit_all (ExperienceBuffer_init np m s d2) subs) bs) \<and>
   rng (snd (get_all_batches_shuffled np (submit_all (ExperienceBuffer_init np m s d1) subs) bs)) =
     snd (shuffle np (RandomState np s)
            [0..<length (rewards (submit_all (ExperienceBuffer_init np m s d1) subs))]) \<and>
   rng (snd (get_all_batches_shuffled np (submit_all (ExperienceBuffer_init np m s d2) subs) bs)) =
     snd (shuffle np (RandomState np s)
            [0..<length (rewards (submit_all (ExperienceBuffer_init np m s d1) subs))]) \<and>
   (list_all matched subs \<and> 1 \<le> bs \<and>
    mset (fst (shuffle np (RandomState np s)
            [0..<length (rewards (submit_all (ExperienceBuffer_init np m s d1) subs))])) =
      mset [0..<length (rewards (submit_all (ExperienceBuffer_init np m s d1) subs))] \<longrightarrow>
    fst (get_all_batches_shuffled np (submit_all (ExperienceBuffer_init np m s d1) subs) bs) =
      Inr (map (\<lambda>i. map (gather (batch_indices
                  (fst (shuffle np (RandomState np s)
                     [0..<length (rewards (submit_all (ExperienceBuffer_init np m s d1) subs))]))
                  (nat bs) i))
               [actions (submit_all (ExperienceBuffer_init np m s d1) subs),
                log_probs (submit_all (ExperienceBuffer_init np m s d1) subs),
                states (submit_all (ExperienceBuffer_init np m s d1) subs),
                values (submit_all (ExperienceBuffer_init np m s d1) subs),
                advantages (submit_all (ExperienceBuffer_init np m s d1) subs)])
             [0..<length (rewards (submit_all (ExperienceBuffer_init np m s d1) subs)) div nat bs]))"
proof -
  define b1 :: "('a, 'b) ExperienceBuffer" where "b1 = submit_all (ExperienceBuffer_init np m s d1) subs"
  define b2 :: "('a, 'b) ExperienceBuffer" where "b2 = submit_all (ExperienceBuffer_init np m s d2) subs"
  have e: "b1 = b2\<lparr>device := d1\<rparr>"
    unfolding b1_def b2_def
    by (subst init_device [of np m s d1 d2]) (rule submit_all_device)
  have r1: "rng b1 = RandomState np s"
    by (simp add: b1_def rng_submit_all ExperienceBuffer_init_def)
  have r2: "rng b2 = RandomState np s"
    by (simp add: b2_def rng_submit_all ExperienceBuffer_init_def)
  have n: "length (rewards b2) = length (rewards b1)"
    by (simp add: e)
  have c1: "fst (get_all_batches_shuffled np b1 bs) = fst (get_all_batches_shuffled np b2 bs)"
    by (simp add: e batches_device)
  have c2: "rng (snd (get_all_batches_shuffled np b1 bs)) =
      snd (shuffle np (RandomState np s) [0..<length (rewards b1)])"
    by (simp add: rng_after_shuffle r1)
  have c3: "rng (snd (get_all_batches_shuffled np b2 bs)) =
      snd (shuffle np (RandomState np s) [0..<length (rewards b1)])"
    by (simp add: rng_after_shuffle r2 n)
  have c4: "fst (get_all_batches_shuffled np b1 bs) =
      Inr (map (\<lambda>i. map (gather (batch_indices
                  (fst (shuffle np (RandomState np s) [0..<length (rewards b1)])) (nat bs) i))
               [actions b1, log_probs b1, states b1, values b1, advantages b1])
             [0..<length (rewards b1) div nat bs])"
    if h: "list_all matched subs \<and> 1 \<le> bs \<and>
      mset (fst (shuffle np (RandomState np s) [0..<length (rewards b1)])) =
        mset [0..<length (rewards b1)]"
  proof -
    from h have al: "shuffle_aligned b1"
      unfolding b1_def by (simp add: submit_all_shuffle_aligned)
    from h have p: "mset (shuffled_indices np b1) = mset [0..<length (rewards b1)]"
      by (simp add: shuffled_indices_def r1)
    from h have bs: "1 \<le> bs" by simp
    from get_all_batches_shuffled_aligned [OF bs al p] show ?thesis
      by (simp add: shuffled_indices_def r1)
  qed
  from c1 c2 c3 c4 show ?thesis
    unfolding b1_def b2_def by blast
qed

theorem shuffle_deterministic_witness:
  "list_all matched [numbered 0 4, numbered 4 7] \<and> (1::int) \<le> 3 \<and>
   fst (get_all_batches_shuffled rotating_random
          (submit_all (ExperienceBuffer_init rotating_random 500 0 ''cpu'')
             [numbered 0 4, numbered 4 7]) 3) =
   fst (get_all_batches_shuffled rotating_random
          (submit_all (ExperienceBuffer_init rotating_random 500 0 ''cuda:0'')
             [numbered 0 4, numbered 4 7]) 3) \<and>
   rng (snd (get_all_batches_shuffled rotating_random
          (submit_all (ExperienceBuffer_init rotating_random 500 0 ''cpu'')
             [numbered 0 4, numbered 4 7]) 3)) = 1 \<and>
   rng (snd (get_all_batches_shuffled rotating_random
          (submit_all (ExperienceBuffer_init rotating_random 500 0 ''cuda:0'')
             [numbered 0 4, numbered 4 7]) 3)) = 1 \<and>
   fst (get_all_batches_shuffled rotating_random
          (submit_all (ExperienceBuffer_init rotating_random 500 0 ''cpu'')
             [numbered 0 4, numbered 4 7]) 3) =
     Inr [[[1, 2, 3], [1, 2, 3], [1, 2, 3], [1, 2, 3], [1, 2, 3]],
          [[4, 5, 6], [4, 5, 6], [4, 5, 6], [4, 5, 6], [4, 5, 6]]]"
proof -
  define B1 where "B1 = submit_all (ExperienceBuffer_init rotating_random 500 0 ''cpu'')
      [numbered 0 4, numbered 4 7]"
  define B2 where "B2 = submit_all (ExperienceBuffer_init rotating_random 500 0 ''cuda:0'')
      [numbered 0 4, numbered 4 7]"
  define order where "order = fst (shuffle rotating_random (RandomState rotating_random 0)
      [0..<length (rewards B1)])"
  have b: "B1 = seven_buffer"
    by (simp add: B1_def seven_buffer_def empty_buffer_def)
  have m: "list_all matched [numbered 0 4, numbered 4 7]"
    by (simp add: numbered_def)
  have o: "order = rotate1 [0..<7]"
    by (simp add: order_def b seven_buffer_fields rotating_random_def del: upt_rec_numeral)
  have p: "mset order = mset [0..<length (rewards B1)]"
    by (simp add: o b seven_buffer_fields mset_rotate1 del: upt_rec_numeral)
  have g: "snd (shuffle rotating_random (RandomState rotating_random 0) [0..<length (rewards B1)]) = 1"
    by (simp add: rotating_random_def)
  have ev: "map (\<lambda>i. map (gather (batch_indices order (nat 3) i))
               [actions B1, log_probs B1, states B1, values B1, advantages B1])
             [0..<length (rewards B1) div nat 3] =
     [[[1, 2, 3], [1, 2, 3], [1, 2, 3], [1, 2, 3], [1, 2, 3]],
      [[4, 5, 6], [4, 5, 6], [4, 5, 6], [4, 5, 6], [4, 5, 6]]]"
    unfolding o b seven_buffer_fields by code_simp
  note T = shuffle_deterministic [of rotating_random 500 0 "''cpu''" "[numbered 0 4, numbered 4 7]" 3
      "''cuda:0''", folded B1_def B2_def, folded order_def]
  have h: "list_all matched [numbered 0 4, numbered 4 7] \<and> (1::int) \<le> 3 \<and>
      mset order = mset [0..<length (rewards B1)]"
    using m p by simp
  have c1: "fst (get_all_batches_shuffled rotating_random B1 3) =
      fst (get_all_batches_shuffled rotating_random B2 3)"
    using T by blast
  have c2: "rng (snd (get_all_batches_shuffled rotating_random B1 3)) =
      snd (shuffle rotating_random (RandomState rotating_random 0) [0..<length (rewards B1)])"
    using T by blast
  have c3: "rng (snd (get_all_batches_shuffled rotating_random B2 3)) =
      snd (shuffle rotating_random (RandomState rotating_random 0) [0..<length (rewards B1)])"
    using T by blast
  have c4: "fst (get_all_batches_shuffled rotating_random B1 3) =
      Inr (map (\<lambda>i. map (gather (batch_indices order (nat 3) i))
               [actions B1, log_probs B1, states B1, values B1, advantages B1])
             [0..<length (rewards B1) div nat 3])"
    using T h by blast
  from c4 have c4': "fst (get_all_batches_shuffled rotating_random B1 3) =
     Inr [[[1, 2, 3], [1, 2, 3], [1, 2, 3], [1, 2, 3], [1, 2, 3]],
          [[4, 5, 6], [4, 5, 6], [4, 5, 6], [4, 5, 6], [4, 5, 6]]]"
    by (simp only: ev)
  from c2 c3 have "rng (snd (get_all_batches_shuffled rotating_random B1 3)) = 1"
    "rng (snd (get_all_batches_shuffled rotating_random B2 3)) = 1"
    by (simp_all only: g)
  with m c1 c4' show ?thesis
    unfolding B1_def B2_def by simp
qed

lemma capacity_example:
  "fst (get_all_batches_shuffled rotating_random
          (submit_all (ExperienceBuffer_init rotating_random 2 0 ''cpu'') [numbered 0 4]) 2) =
     Inr [[[3, 2], [3, 2], [3, 2], [3, 2], [3, 2]]]"
  "fst (get_all_batches_shuffled rotating_random
          (submit_all (ExperienceBuffer_init rotating_random 500 0 ''cpu'') [numbered 0 4]) 2) =
     Inr [[[1, 2], [1, 2], [1, 2], [1, 2], [1, 2]], [[3, 0], [3, 0], [3, 0], [3, 0], [3, 0]]]"
  by (simp_all add: submit_numbered ExperienceBuffer_init_def clamp_size_def slice_from_pos
      rotating_random_def get_all_batches_shuffled_def index_select_def py_range_def
      slice_def slice_bound_def Let_def upt_rec)

text \<open>Claim C4 as stated fails: the seed and the submissions do not determine the batches,
  the capacity does too. With seed 0 and one submission of four rows, a buffer of capacity
  2 keeps the rows 2 and 3 and returns one batch of two rows, while a buffer of capacity
  500 keeps all four rows and returns two batches.\<close>

theorem shuffle_capacity_matters:
  "fst (get_all_batches_shuffled rotating_random
          (submit_all (ExperienceBuffer_init rotating_random 2 0 ''cpu'') [numbered 0 4]) 2) \<noteq>
   fst (get_all_batches_shuffled rotating_random
          (submit_all (ExperienceBuffer_init rotating_random 500 0 ''cpu'') [numbered 0 4]) 2) \<and>
   fst (get_all_batches_shuffled rotating_random
          (submit_all (ExperienceBuffer_init rotating_random 2 0 ''cpu'') [numbered 0 4]) 2) =
     Inr [[[3, 2], [3, 2], [3, 2], [3, 2], [3, 2]]] \<and>
   fst (get_all_batches_shuffled rotating_random
          (submit_all (ExperienceBuffer_init rotating_random 500 0 ''cpu'') [numbered 0 4]) 2) =
     Inr [[[1, 2], [1, 2], [1, 2], [1, 2], [1, 2]], [[3, 0], [3, 0], [3, 0], [3, 0], [3, 0]]]"
  unfolding capacity_example by simp

section \<open>Properties of the learner\<close>








lemma py_str_small:
  "py_str 0 = ''0''" "py_str 1 = ''1''" "py_str 2 = ''2''" "py_str 3 = ''3''" "py_str 4 = ''4''"
  by (simp_all add: py_str_def str_nat.simps digit_char_def)

lemma py_int_small:
  "py_int ''0'' = Inr 0" "py_int ''1'' = Inr 1" "py_int ''2'' = Inr 2" "py_int ''3'' = Inr 3"
  "py_int ''4'' = Inr 4"
  by (simp_all add: py_int_def strip_def is_space_def parse_digits_def digit_val_def Let_def)

lemmas demo_eval =
  demo_collaborators_def demo_learner_def empty_buffer_def ExperienceBuffer_init_def
  rotating_random_def add_new_experience_def submit_experience_def clamp_size_def
  make_report_def save_def remove_old_checkpoints_def print_def makedirs_def entry_names_def
  listdir_def
  write_folder_def to_json_def
  slice_to_def slice_bound_def py_str_small py_int_small Let_def






lemma learn_inner_run_epochs:
  "run_epochs cs n self = Some s1 \<Longrightarrow> learn_inner cs np self = learn_inner cs np s1"
proof (induction n arbitrary: self)
  case 0
  then show ?case by simp
next
  case (Suc n)
  from Suc.prems obtain s' where c: "cumulative_timesteps (agent self) < timestep_limit self"
    and i: "learn_iteration cs self = (None, s')" and r: "run_epochs cs n s' = Some s1"
    by (auto split: if_splits prod.splits option.splits)
  have "learn_inner cs np self = learn_inner cs np s'"
    by (subst learn_inner.simps) (simp add: c i)
  with Suc.IH [OF r] show ?case by simp
qed

lemma learn_inner_raises:
  "cumulative_timesteps (agent s1) < timestep_limit s1 \<Longrightarrow> learn_iteration cs s1 = (Some e, s2) \<Longrightarrow>
   learn_inner cs np s1 = Some (Some e, s2)"
  by (subst learn_inner.simps) simp

lemma learn_inner_exits:
  "\<not> cumulative_timesteps (agent s1) < timestep_limit s1 \<Longrightarrow>
   learn_inner cs np s1 = Some (cleanup cs np s1)"
  by (subst learn_inner.simps) simp

lemma cleanup_effect:
  assumes "cleanup cs np s = (None, s')"
  shows "experience_buffer s' = clear np (experience_buffer s) \<and>
         agent s' = snd (agent_cleanup cs (agent s)) \<and>
         events s' = events s @ (case wandb_run s of None \<Rightarrow> [] | Some run \<Rightarrow> [FinishedRun run])"
  using assms
  by (auto simp: cleanup_def split: option.splits prod.splits)

text \<open>Claim C9, as amended. Let the loop have made \<open>n\<close> passes without an exception.
  If the next pass raises an exception of class \<open>Exception\<close> and the calls of
  \<open>cleanup\<close> complete, \<open>learn\<close> prints the banner and the traceback, runs
  \<open>cleanup\<close> once (the tracking run is finished if there is one, the collector is cleaned
  up, the buffer is cleared) and returns normally; no further pass is made. If the
  exception is not of class \<open>Exception\<close>, nothing is printed, \<open>cleanup\<close> runs and the
  exception reaches the caller. If instead the loop condition fails, \<open>cleanup\<close> runs at the
  end of \<open>_learn\<close> and again in the \<open>finally\<close> block, and \<open>learn\<close> returns normally.\<close>

theorem learn_guard:
  assumes run: "run_epochs cs n self = Some s1"
  shows
   "(cumulative_timesteps (agent s1) < timestep_limit s1 \<and> learn_iteration cs s1 = (Some e, s2) \<and>
     is_Exception e \<and>
     cleanup cs np (s2\<lparr> events := events s2 @ [Printed error_banner, PrintedTraceback e] \<rparr>) = (None, s3)
     \<longrightarrow> learn cs np self = Some (None, s3) \<and>
         experience_buffer s3 = clear np (experience_buffer s2) \<and>
         agent s3 = snd (agent_cleanup cs (agent s2)) \<and>
         events s3 = events s2 @ [Printed error_banner, PrintedTraceback e] @
           (case wandb_run s2 of None \<Rightarrow> [] | Some run \<Rightarrow> [FinishedRun run])) \<and>
    (cumulative_timesteps (agent s1) < timestep_limit s1 \<and> learn_iteration cs s1 = (Some e, s2) \<and>
     \<not> is_Exception e \<and> cleanup cs np s2 = (None, s3)
     \<longrightarrow> learn cs np self = Some (Some e, s3) \<and>
         experience_buffer s3 = clear np (experience_buffer s2) \<and>
         agent s3 = snd (agent_cleanup cs (agent s2)) \<and>
         events s3 = events s2 @ (case wandb_run s2 of None \<Rightarrow> [] | Some run \<Rightarrow> [FinishedRun run])) \<and>
    (\<not> cumulative_timesteps (agent s1) < timestep_limit s1 \<and>
     cleanup cs np s1 = (None, s2) \<and> cleanup cs np s2 = (None, s3)
     \<longrightarrow> learn cs np self = Some (None, s3) \<and>
         experience_buffer s3 = clear np (experience_buffer s2) \<and>
         experience_buffer s2 = clear np (experience_buffer s1))"
proof (intro conjI impI)
  assume a: "cumulative_timesteps (agent s1) < timestep_limit s1 \<and>
     learn_iteration cs s1 = (Some e, s2) \<and> is_Exception e \<and>
     cleanup cs np (s2\<lparr> events := events s2 @ [Printed error_banner, PrintedTraceback e] \<rparr>) = (None, s3)"
  then have "learn_inner cs np self = Some (Some e, s2)"
    using learn_inner_run_epochs [OF run] learn_inner_raises by metis
  with a show "learn cs np self = Some (None, s3)"
    by (simp add: learn_def)
  from a cleanup_effect [of cs np "s2\<lparr> events := events s2 @ [Printed error_banner, PrintedTraceback e] \<rparr>" s3]
  show "experience_buffer s3 = clear np (experience_buffer s2)"
    and "agent s3 = snd (agent_cleanup cs (agent s2))"
    and "events s3 = events s2 @ [Printed error_banner, PrintedTraceback e] @
           (case wandb_run s2 of None \<Rightarrow> [] | Some run \<Rightarrow> [FinishedRun run])"
    by simp_all
next
  assume a: "cumulative_timesteps (agent s1) < timestep_limit s1 \<and>
     learn_iteration cs s1 = (Some e, s2) \<and> \<not> is_Exception e \<and> cleanup cs np s2 = (None, s3)"
  then have "learn_inner cs np self = Some (Some e, s2)"
    using learn_inner_run_epochs [OF run] learn_inner_raises by metis
  with a show "learn cs np self = Some (Some e, s3)"
    by (simp add: learn_def)
  from a cleanup_effect [of cs np s2 s3]
  show "experience_buffer s3 = clear np (experience_buffer s2)"
    and "agent s3 = snd (agent_cleanup cs (agent s2))"
    and "events s3 = events s2 @ (case wandb_run s2 of None \<Rightarrow> [] | Some run \<Rightarrow> [FinishedRun run])"
    by simp_all
next
  assume a: "\<not> cumulative_timesteps (agent s1) < timestep_limit s1 \<and>
     cleanup cs np s1 = (None, s2) \<and> cleanup cs np s2 = (None, s3)"
  then have "learn_inner cs np self = Some (None, s2)"
    using learn_inner_run_epochs [OF run] learn_inner_exits by metis
  with a show "learn cs np self = Some (None, s3)"
    by (simp add: learn_def)
  from a cleanup_effect [of cs np s2 s3] cleanup_effect [of cs np s1 s2]
  show "experience_buffer s3 = clear np (experience_buffer s2)"
    and "experience_buffer s2 = clear np (experience_buffer s1)"
    by simp_all
qed


lemma demo_run_one:
  "run_epochs (demo_collaborators f) (Suc 0) (demo_learner 5) =
     Some (snd (learn_iteration (demo_collaborators f) (demo_learner 5)))"
  by (cases f) (simp_all add: learn_iteration_def demo_eval)

lemma demo_after_one:
  fixes f
  defines "S1 \<equiv> snd (learn_iteration (demo_collaborators f) (demo_learner 5))"
  shows "agent S1 = demo_agent" "timestep_limit S1 = 4" "ts_per_epoch S1 = 2" "wandb_run S1 = None"
    "tracebacks (events S1) = []" "save_every_ts S1 = 2" "epoch S1 = 1"
  unfolding S1_def
  by (cases f; simp add: learn_iteration_def demo_eval demo_agent_def)+

lemma demo_collect_raises:
  assumes "agent S = demo_agent"
  shows "learn_iteration (demo_collaborators (Some exc)) S =
     (Some exc, S\<lparr> clock := Suc (clock S), agent := demo_agent \<rparr>)"
proof -
  have "collect_timesteps (demo_collaborators (Some exc)) demo_agent (ts_per_epoch S) =
      (Inl exc, demo_agent)"
    by (simp add: demo_collaborators_def demo_agent_def)
  with assms show ?thesis
    by (simp add: learn_iteration_def Let_def)
qed

lemma demo_cleanup:
  assumes "wandb_run S = None"
  shows "cleanup (demo_collaborators f) np S = (None, S\<lparr> agent := agent S,
      experience_buffer := clear np (experience_buffer S) \<rparr>)"
  using assms by (simp add: cleanup_def demo_collaborators_def)

theorem learn_guard_witness:
  "map_option fst (learn (demo_collaborators (Some (OtherException ''collector died'')))
      rotating_random (demo_learner 5)) = Some None \<and>
   map_option (\<lambda>r. tracebacks (events (snd r)))
     (learn (demo_collaborators (Some (OtherException ''collector died'')))
        rotating_random (demo_learner 5)) = Some [OtherException ''collector died''] \<and>
   map_option (\<lambda>r. experience_buffer (snd r))
     (learn (demo_collaborators (Some (OtherException ''collector died'')))
        rotating_random (demo_learner 5)) = Some empty_buffer \<and>
   map_option fst (learn (demo_collaborators (Some SystemExit)) rotating_random (demo_learner 5)) =
     Some (Some SystemExit) \<and>
   map_option fst (learn (demo_collaborators None) rotating_random
      ((demo_learner 5)\<lparr> timestep_limit := 0 \<rparr>)) = Some None"
proof (intro conjI)
  define exc where "exc = OtherException ''collector died''"
  define C where "C = demo_collaborators (Some exc)"
  define S1 where "S1 = snd (learn_iteration C (demo_learner 5))"
  define S2 where "S2 = S1\<lparr> clock := Suc (clock S1), agent := demo_agent \<rparr>"
  define S3 where "S3 = snd (cleanup C rotating_random
      (S2\<lparr> events := events S2 @ [Printed error_banner, PrintedTraceback exc] \<rparr>))"
  have run: "run_epochs C (Suc 0) (demo_learner 5) = Some S1"
    unfolding C_def S1_def by (rule demo_run_one)
  have f: "agent S1 = demo_agent" "timestep_limit S1 = 4" "wandb_run S1 = None"
    "tracebacks (events S1) = []"
    unfolding S1_def C_def by (rule demo_after_one)+
  have h: "cumulative_timesteps (agent S1) < timestep_limit S1 \<and>
     learn_iteration C S1 = (Some exc, S2) \<and> is_Exception exc \<and>
     cleanup C rotating_random (S2\<lparr> events := events S2 @ [Printed error_banner, PrintedTraceback exc] \<rparr>)
       = (None, S3)"
    using f demo_collect_raises [of S1 exc]
    by (simp add: S2_def S3_def C_def demo_cleanup exc_def demo_agent_def)
  from learn_guard [OF run, of exc S2 rotating_random S3] h
  have l: "learn C rotating_random (demo_learner 5) = Some (None, S3)"
    and b: "experience_buffer S3 = clear rotating_random (experience_buffer S2)"
    and e: "events S3 = events S2 @ [Printed error_banner, PrintedTraceback exc] @
           (case wandb_run S2 of None \<Rightarrow> [] | Some run \<Rightarrow> [FinishedRun run])"
    by simp_all
  have t: "tracebacks (xs @ ys) = tracebacks xs @ tracebacks ys" for xs ys
    by (induction xs rule: tracebacks.induct) simp_all
  have eb: "experience_buffer S3 = empty_buffer"
    unfolding b S2_def S1_def C_def
    by (simp add: learn_iteration_def demo_eval clear_def)
  have tb: "tracebacks (events S3) = [exc]"
    using f by (simp add: e t S2_def)
  from l show "map_option fst (learn (demo_collaborators (Some (OtherException ''collector died'')))
      rotating_random (demo_learner 5)) = Some None"
    by (simp add: C_def exc_def)
  from l tb show "map_option (\<lambda>r. tracebacks (events (snd r)))
     (learn (demo_collaborators (Some (OtherException ''collector died'')))
        rotating_random (demo_learner 5)) = Some [OtherException ''collector died'']"
    by (simp add: C_def exc_def)
  from l eb show "map_option (\<lambda>r. experience_buffer (snd r))
     (learn (demo_collaborators (Some (OtherException ''collector died'')))
        rotating_random (demo_learner 5)) = Some empty_buffer"
    by (simp add: C_def exc_def)
next
  define C where "C = demo_collaborators (Some SystemExit)"
  define S1 where "S1 = snd (learn_iteration C (demo_learner 5))"
  define S2 where "S2 = S1\<lparr> clock := Suc (clock S1), agent := demo_agent \<rparr>"
  define S3 where "S3 = snd (cleanup C rotating_random S2)"
  have run: "run_epochs C (Suc 0) (demo_learner 5) = Some S1"
    unfolding C_def S1_def by (rule demo_run_one)
  have f: "agent S1 = demo_agent" "timestep_limit S1 = 4" "wandb_run S1 = None"
    unfolding S1_def C_def by (rule demo_after_one)+
  have h: "cumulative_timesteps (agent S1) < timestep_limit S1 \<and>
     learn_iteration C S1 = (Some SystemExit, S2) \<and> \<not> is_Exception SystemExit \<and>
     cleanup C rotating_random S2 = (None, S3)"
    using f demo_collect_raises [of S1 SystemExit]
    by (simp add: S2_def S3_def C_def demo_cleanup demo_agent_def)
  from learn_guard [OF run, of SystemExit S2 rotating_random S3] h
  show "map_option fst (learn (demo_collaborators (Some SystemExit)) rotating_random (demo_learner 5)) =
     Some (Some SystemExit)"
    by (simp add: C_def)
next
  define C where "C = demo_collaborators None"
  define S1 where "S1 = (demo_learner 5)\<lparr> timestep_limit := 0 \<rparr>"
  define S2 where "S2 = snd (cleanup C rotating_random S1)"
  define S3 where "S3 = snd (cleanup C rotating_random S2)"
  have run: "run_epochs C 0 S1 = Some S1" by simp
  have w: "wandb_run S1 = None" "wandb_run S2 = None"
    by (simp_all add: S2_def S1_def C_def demo_cleanup demo_learner_def)
  have h: "\<not> cumulative_timesteps (agent S1) < timestep_limit S1 \<and>
     cleanup C rotating_random S1 = (None, S2) \<and> cleanup C rotating_random S2 = (None, S3)"
    using w by (simp add: S2_def S3_def C_def demo_cleanup) (simp add: S1_def demo_learner_def)
  from learn_guard [OF run, of _ S2 rotating_random S3] h
  show "map_option fst (learn (demo_collaborators None) rotating_random
      ((demo_learner 5)\<lparr> timestep_limit := 0 \<rparr>)) = Some None"
    by (simp add: C_def S1_def)
qed

text \<open>Claim C9 as stated fails for an exception outside \<open>Exception\<close>: a
  \<open>KeyboardInterrupt\<close> raised by the collector in the second epoch leaves \<open>learn\<close> as
  an exception, and no traceback is printed.\<close>

theorem learn_guard_interrupt:
  "map_option fst (learn (demo_collaborators (Some KeyboardInterrupt)) rotating_random (demo_learner 5))
     = Some (Some KeyboardInterrupt) \<and>
   map_option (tracebacks \<circ> events \<circ> snd)
     (learn (demo_collaborators (Some KeyboardInterrupt)) rotating_random (demo_learner 5)) = Some []"
proof -
  define C where "C = demo_collaborators (Some KeyboardInterrupt)"
  define S1 where "S1 = snd (learn_iteration C (demo_learner 5))"
  define S2 where "S2 = S1\<lparr> clock := Suc (clock S1), agent := demo_agent \<rparr>"
  define S3 where "S3 = S2\<lparr> agent := agent S2,
      experience_buffer := clear rotating_random (experience_buffer S2) \<rparr>"
  have run: "run_epochs C (Suc 0) (demo_learner 5) = Some S1"
    unfolding C_def S1_def by (rule demo_run_one)
  have f: "agent S1 = demo_agent" "timestep_limit S1 = 4" "wandb_run S1 = None"
    "tracebacks (events S1) = []"
    unfolding S1_def C_def by (rule demo_after_one)+
  have i: "learn_inner C rotating_random (demo_learner 5) = Some (Some KeyboardInterrupt, S2)"
    using learn_inner_run_epochs [OF run, of rotating_random]
      learn_inner_raises [of S1 C KeyboardInterrupt S2 rotating_random]
      demo_collect_raises [of S1 KeyboardInterrupt] f
    by (simp add: S2_def C_def demo_agent_def)
  have c: "cleanup C rotating_random S2 = (None, S3)"
    unfolding C_def S3_def by (rule demo_cleanup) (simp add: S2_def f)
  from i c have "learn C rotating_random (demo_learner 5) = Some (Some KeyboardInterrupt, S3)"
    by (simp add: learn_def)
  moreover have "tracebacks (events S3) = []"
    using f by (simp add: S3_def S2_def)
  ultimately show ?thesis by (simp add: C_def)
qed


lemma entry_names_write_folder: "entry_names (write_folder name f d) = entry_names d"
  by (induction d) (simp_all add: entry_names_def write_folder_def)

lemma map_of_write_folder:
  "map_of (write_folder name f d) name = map_option f (map_of d name)"
  by (induction d) (auto simp: write_folder_def)

lemma entry_names_makedirs:
  "entry_names (makedirs name d) = (if name \<in> set (entry_names d) then entry_names d else entry_names d @ [name])"
  by (simp add: makedirs_def entry_names_def)

lemma map_of_entry_names: "name \<in> set (entry_names d) \<Longrightarrow> \<exists>c. map_of d name = Some c"
  by (induction d) (auto simp: entry_names_def)

lemma makedirs_present: "\<exists>c. map_of (makedirs name d) name = Some c"
  by (rule map_of_entry_names) (simp add: entry_names_makedirs)


lemma save_success:
  assumes "save cs self ts = (None, self')"
  shows "\<exists>d files. save_to cs (ppo_learner self) = Inr files \<and>
     remove_old_checkpoints (listdir_order cs) (n_checkpoints_to_keep self)
       (makedirs (py_str ts) (save_folder self)) = (None, d) \<and>
     self' = self\<lparr> save_folder :=
       write_folder (py_str ts) (\<lambda>c. c\<lparr> book_keeping_file := Some (book_keeping_of self) \<rparr>)
         (write_folder (py_str ts) (\<lambda>c. c\<lparr> model_files := Some files \<rparr>)
            (makedirs (py_str ts) d)),
       events := events self @
         [Printed (''Saving checkpoint '' @ py_str ts @ ''...''),
          Printed (''Checkpoint '' @ py_str ts @ '' saved!'' @ [CHR 0x0A])] \<rparr>"
  using assms
  by (cases "wandb_run self")
     (auto simp: save_def Let_def print_def book_keeping_of_def
       split: prod.splits option.splits sum.splits)

lemma save_written:
  assumes "save cs self ts = (None, self')"
  shows "\<exists>files. save_to cs (ppo_learner self) = Inr files \<and>
     map_of (save_folder self') (py_str ts) =
       Some \<lparr> model_files = Some files, book_keeping_file = Some (book_keeping_of self) \<rparr>"
proof -
  from save_success [OF assms] obtain d files where
    f: "save_to cs (ppo_learner self) = Inr files"
    and s: "save_folder self' =
       write_folder (py_str ts) (\<lambda>c. c\<lparr> book_keeping_file := Some (book_keeping_of self) \<rparr>)
         (write_folder (py_str ts) (\<lambda>c. c\<lparr> model_files := Some files \<rparr>)
            (makedirs (py_str ts) d))"
    by fastforce
  obtain c where c: "map_of (makedirs (py_str ts) d) (py_str ts) = Some c"
    using makedirs_present by blast
  have "map_of (save_folder self') (py_str ts) =
       Some \<lparr> model_files = Some files, book_keeping_file = Some (book_keeping_of self) \<rparr>"
    by (cases c) (simp add: s map_of_write_folder c)
  with f show ?thesis by blast
qed


text \<open>Claim C6. After a \<open>save\<close> that completed, \<open>load\<close> of that checkpoint folder
  into any learner that sees the same save folder cannot fail for a missing folder or
  document: it fails only if restoring the model files or resuming the tracking run
  raises. When it returns, the cumulative timesteps, the epoch, the cumulative model updates
  and the running statistic's mean, variance accumulator and count (and the average reward)
  are those of the saving learner at the time of the save.\<close>

theorem checkpoint_round_trip:
  assumes saved: "save cs self ts = (None, self')"
    and folder: "save_folder other = save_folder self'"
    and loaded: "load cs other (py_str ts) load_wandb = (result, other')"
  shows "case result of
           Inr wandb_loaded \<Rightarrow>
             cumulative_timesteps (agent other') = cumulative_timesteps (agent self) \<and>
             epoch other' = epoch self \<and>
             cumulative_model_updates (ppo_learner other') =
               cumulative_model_updates (ppo_learner self) \<and>
             stat_mean (return_stats other') = stat_mean (return_stats self) \<and>
             stat_variance (return_stats other') = stat_variance (return_stats self) \<and>
             stat_count (return_stats other') = stat_count (return_stats self) \<and>
             average_reward (agent other') = average_reward (agent self)
         | Inl e \<Rightarrow>
             (\<exists>files. load_from cs (ppo_learner other) files = Inl e) \<or>
             (load_wandb \<and> (\<exists>keys. wandb_init cs keys = Inl e))"
proof -
  from save_written [OF saved] obtain files where
    m: "map_of (save_folder other) (py_str ts) =
       Some \<lparr> model_files = Some files, book_keeping_file = Some (book_keeping_of self) \<rparr>"
    unfolding folder by blast
  show ?thesis
    using loaded
    by (auto simp: load_def m Let_def print_def book_keeping_of_def to_json_def from_json_def
        split: sum.splits option.splits if_splits)
qed


lemma digit_val_digit_char: "d < 10 \<Longrightarrow> digit_val (digit_char d) = Some d"
proof -
  assume "d < 10"
  then have "d \<in> {0, 1, 2, 3, 4, 5, 6, 7, 8, 9}" by auto
  then show ?thesis
    by (auto simp: digit_val_def digit_char_def Let_def)
qed

lemma digit_not_special:
  assumes "digit_val c = Some v"
  shows "c \<noteq> CHR ''_''" "c \<noteq> CHR ''-''" "c \<noteq> CHR ''+''" "\<not> is_space c"
  using assms by (auto simp: digit_val_def is_space_def Let_def split: if_splits)

lemma digits_from_all_digits:
  "all_digits s \<Longrightarrow> digits_from acc s = Some (foldl (\<lambda>a c. 10 * a + the (digit_val c)) acc s)"
proof (induction s arbitrary: acc)
  case Nil
  show ?case by simp
next
  case (Cons c s)
  from Cons.prems obtain v where v: "digit_val c = Some v" and s: "all_digits s"
    by (auto simp: all_digits_def)
  from digit_not_special(1) [OF v] Cons.IH [OF s] v show ?case by simp
qed

lemma parse_digits_all_digits:
  assumes "all_digits s" "s \<noteq> []"
  shows "parse_digits s = Some (foldl (\<lambda>a c. 10 * a + the (digit_val c)) 0 s)"
proof (cases s)
  case Nil
  with assms show ?thesis by simp
next
  case (Cons c cs)
  with assms obtain v where v: "digit_val c = Some v" and cs: "all_digits cs"
    by (auto simp: all_digits_def)
  with Cons digits_from_all_digits [OF cs, of v] show ?thesis
    by (simp add: parse_digits_def)
qed

lemma str_nat_digits:
  "all_digits (str_nat n) \<and> str_nat n \<noteq> [] \<and>
   foldl (\<lambda>a c. 10 * a + the (digit_val c)) 0 (str_nat n) = n"
proof (induction n rule: str_nat.induct)
  case (1 n)
  show ?case
  proof (cases "n < 10")
    case True
    then show ?thesis
      by (subst (1 2 3) str_nat.simps) (simp add: all_digits_def digit_val_digit_char)
  next
    case False
    with 1 have ih: "all_digits (str_nat (n div 10))"
      "foldl (\<lambda>a c. 10 * a + the (digit_val c)) 0 (str_nat (n div 10)) = n div 10"
      by simp_all
    have d: "digit_val (digit_char (n mod 10)) = Some (n mod 10)"
      by (rule digit_val_digit_char) simp
    from False ih d show ?thesis
      by (subst (1 2 3) str_nat.simps) (simp add: all_digits_def)
  qed
qed

lemma strip_id:
  assumes "s \<noteq> []" "\<not> is_space (hd s)" "\<not> is_space (last s)"
  shows "strip s = s"
proof -
  from assms have a: "dropWhile is_space s = s"
    by (cases s) simp_all
  from assms have "rev s \<noteq> []" "\<not> is_space (hd (rev s))"
    by (simp_all add: hd_rev)
  then have "dropWhile is_space (rev s) = rev s"
    by (cases "rev s") simp_all
  with a show ?thesis by (simp add: strip_def)
qed

lemma all_digits_not_space:
  assumes "all_digits s" "s \<noteq> []"
  shows "\<not> is_space (hd s)" "\<not> is_space (last s)"
proof -
  from assms have "hd s \<in> set s" "last s \<in> set s" by simp_all
  with assms(1) obtain v w where "digit_val (hd s) = Some v" "digit_val (last s) = Some w"
    by (simp add: all_digits_def list_all_iff) blast
  then show "\<not> is_space (hd s)" "\<not> is_space (last s)"
    by (simp_all add: digit_not_special(4))
qed

lemma py_int_py_str: "py_int (py_str i) = Inr i"
proof (cases "i < 0")
  case True
  define s where "s = str_nat (nat (- i))"
  have s: "all_digits s" "s \<noteq> []" "foldl (\<lambda>a c. 10 * a + the (digit_val c)) 0 s = nat (- i)"
    using str_nat_digits [of "nat (- i)"] by (simp_all add: s_def)
  have "\<not> is_space (CHR ''-'')" by (simp add: is_space_def)
  with s all_digits_not_space(2) [OF s(1,2)] have "strip (CHR ''-'' # s) = CHR ''-'' # s"
    by (intro strip_id) simp_all
  with True s parse_digits_all_digits [OF s(1,2)] show ?thesis
    by (simp add: py_int_def py_str_def s_def [symmetric])
next
  case False
  define s where "s = str_nat (nat i)"
  have s: "all_digits s" "s \<noteq> []" "foldl (\<lambda>a c. 10 * a + the (digit_val c)) 0 s = nat i"
    using str_nat_digits [of "nat i"] by (simp_all add: s_def)
  from s obtain c cs where c: "s = c # cs" by (cases s) simp_all
  with s(1) obtain v where v: "digit_val c = Some v" by (auto simp: all_digits_def)
  have st: "strip s = s"
    using s all_digits_not_space [OF s(1,2)] by (intro strip_id)
  from False st c digit_not_special(2,3) [OF v] parse_digits_all_digits [OF s(1,2)] s(3)
  show ?thesis
    by (simp add: py_int_def py_str_def s_def [symmetric])
qed

lemma py_str_inj: "py_str i = py_str j \<Longrightarrow> i = j"
  by (metis py_int_py_str sum.inject(2))

lemma int_each_py_str: "int_each (map py_str xs) = Inr xs"
  by (induction xs) (simp_all add: py_int_py_str)


lemma entry_names_rmtree:
  assumes "name \<in> set (entry_names d)"
  shows "\<exists>d'. rmtree name d = Inr d' \<and> entry_names d' = filter (\<lambda>n. n \<noteq> name) (entry_names d)"
  using assms by (simp add: rmtree_def entry_names_def filter_map comp_def)

lemma int_each_parsed:
  "\<forall>n\<in>set ns. \<exists>x. n = py_str x \<Longrightarrow> int_each ns = Inr (map (\<lambda>n. projr (py_int n)) ns)"
  by (induction ns) (auto simp: py_int_py_str)

lemma int_each_listed:
  assumes "mset ns = mset (map py_str xs)"
  shows "\<exists>ys. int_each ns = Inr ys \<and> mset ys = mset xs"
proof -
  define f where "f = (\<lambda>n. projr (py_int n))"
  from assms have "set ns = set (map py_str xs)" by (rule mset_eq_setD)
  then have "\<forall>n\<in>set ns. \<exists>x. n = py_str x" by auto
  then have i: "int_each ns = Inr (map f ns)"
    unfolding f_def by (rule int_each_parsed)
  have "mset (map f ns) = image_mset f (mset ns)" by simp
  also have "\<dots> = image_mset f (mset (map py_str xs))" by (simp only: assms)
  also have "\<dots> = mset (map f (map py_str xs))" by (simp only: mset_map)
  also have "map f (map py_str xs) = xs"
    by (simp add: f_def py_int_py_str map_idI)
  finally have "mset (map f ns) = mset xs" .
  with i show ?thesis by blast
qed

lemma rmtree_each_take:
  "distinct xs \<Longrightarrow> mset (entry_names d) = mset (map py_str xs) \<Longrightarrow>
   \<exists>d'. rmtree_each (take j xs) d = (None, d') \<and>
        mset (entry_names d') = mset (map py_str (drop j xs))"
proof (induction j arbitrary: xs d)
  case 0
  then show ?case by simp
next
  case (Suc j)
  show ?case
  proof (cases xs)
    case Nil
    with Suc.prems show ?thesis by simp
  next
    case (Cons x xs')
    from Suc.prems(2) have "set (entry_names d) = set (map py_str xs)" by (rule mset_eq_setD)
    with Cons have "py_str x \<in> set (entry_names d)" by simp
    from entry_names_rmtree [OF this] obtain d1 where
      r: "rmtree (py_str x) d = Inr d1"
      and l: "entry_names d1 = filter (\<lambda>n. n \<noteq> py_str x) (entry_names d)" by blast
    from Suc.prems Cons have "\<forall>y\<in>set xs'. py_str y \<noteq> py_str x"
      by (auto dest: py_str_inj)
    then have f: "filter (\<lambda>n. n \<noteq> py_str x) (map py_str xs') = map py_str xs'"
      by (simp add: filter_id_conv)
    have "mset (entry_names d1) = filter_mset (\<lambda>n. n \<noteq> py_str x) (mset (entry_names d))"
      by (simp add: l)
    also have "\<dots> = filter_mset (\<lambda>n. n \<noteq> py_str x) (mset (map py_str xs))"
      by (simp only: Suc.prems(2))
    also have "\<dots> = mset (filter (\<lambda>n. n \<noteq> py_str x) (map py_str xs))"
      by simp
    also have "\<dots> = mset (map py_str xs')"
      by (simp add: Cons f)
    finally have l1: "mset (entry_names d1) = mset (map py_str xs')" .
    from Suc.prems Cons have "distinct xs'" by simp
    from Suc.IH [OF this l1] r Cons show ?thesis by simp
  qed
qed

lemma remove_old_checkpoints_sorted:
  assumes perm: "\<And>names. mset (order names) = mset names"
    and l: "mset (entry_names d) = mset (map py_str xs)"
    and s: "sorted_wrt (<) xs" and k: "1 \<le> keep"
  shows "\<exists>d'. remove_old_checkpoints order keep d = (None, d') \<and>
     mset (entry_names d') = mset (map py_str (drop (length xs - nat keep) xs))"
proof -
  have "mset (listdir order d) = mset (map py_str xs)"
    by (simp add: listdir_def perm l)
  from int_each_listed [OF this] obtain ys where
    i: "int_each (listdir order d) = Inr ys" and m: "mset ys = mset xs" by blast
  from m have len: "length ys = length xs" by (rule mset_eq_length)
  from s have "sorted xs" by (rule strict_sorted_imp_sorted)
  with m have so: "sort ys = xs" by (simp add: properties_for_sort)
  show ?thesis
  proof (cases "int (length xs) > keep")
    case True
    from True k have sl: "slice_to xs (- keep) = take (length xs - nat keep) xs"
      by (simp add: slice_to_def slice_bound_def Let_def nat_diff_distrib)
    from s have "distinct xs" by (simp add: strict_sorted_iff)
    from rmtree_each_take [OF this l, of "length xs - nat keep"] True show ?thesis
      by (simp add: remove_old_checkpoints_def i len so sl)
  next
    case False
    then have "length xs - nat keep = 0" by simp
    with False show ?thesis
      by (simp add: remove_old_checkpoints_def i len l)
  qed
qed

lemma mset_entry_names_makedirs:
  assumes "mset (entry_names d) = mset (map py_str xs)" and "k \<notin> set xs"
  shows "mset (entry_names (makedirs (py_str k) d)) = mset (map py_str (xs @ [k]))"
proof -
  from assms(1) have "set (entry_names d) = set (map py_str xs)" by (rule mset_eq_setD)
  with assms(2) have "py_str k \<notin> set (entry_names d)" by (auto dest: py_str_inj)
  with assms(1) show ?thesis by (simp add: entry_names_makedirs)
qed

lemma save_step:
  assumes perm: "\<And>names. mset (listdir_order cs names) = mset names"
    and l: "mset (entry_names (save_folder self)) = mset (map py_str old)"
    and s: "sorted_wrt (<) (old @ [k])"
    and keep: "1 \<le> n_checkpoints_to_keep self"
    and files: "save_to cs (ppo_learner self) = Inr files"
  shows "\<exists>self'. save cs self k = (None, self') \<and>
     mset (entry_names (save_folder self')) =
       mset (map py_str (drop (Suc (length old) - nat (n_checkpoints_to_keep self)) (old @ [k]))) \<and>
     n_checkpoints_to_keep self' = n_checkpoints_to_keep self \<and>
     ppo_learner self' = ppo_learner self"
proof -
  define j where "j = Suc (length old) - nat (n_checkpoints_to_keep self)"
  from s have "k \<notin> set old" by (auto simp: sorted_wrt_append)
  with l have m: "mset (entry_names (makedirs (py_str k) (save_folder self))) =
      mset (map py_str (old @ [k]))"
    by (rule mset_entry_names_makedirs)
  from remove_old_checkpoints_sorted [OF perm m s keep] obtain d where
    r: "remove_old_checkpoints (listdir_order cs) (n_checkpoints_to_keep self)
          (makedirs (py_str k) (save_folder self)) = (None, d)"
    and ld: "mset (entry_names d) = mset (map py_str (drop j (old @ [k])))"
    by (auto simp: j_def)
  from keep have "j \<le> length old" by (simp add: j_def)
  then have "k \<in> set (drop j (old @ [k]))" by simp
  then have "py_str k \<in> py_str ` set (drop j (old @ [k]))" by (rule imageI)
  moreover from ld have "set (entry_names d) = set (map py_str (drop j (old @ [k])))"
    by (rule mset_eq_setD)
  ultimately have "py_str k \<in> set (entry_names d)" by (simp only: set_map)
  then have m2: "makedirs (py_str k) d = d" by (simp add: makedirs_def)
  show ?thesis
    using r files ld m2
    by (cases "wandb_run self")
       (simp_all add: save_def Let_def print_def entry_names_write_folder j_def)
qed

lemma save_each_sorted:
  assumes "\<And>names. mset (listdir_order cs names) = mset names"
    and "mset (entry_names (save_folder self)) = mset (map py_str old)"
    and "sorted_wrt (<) (old @ ks)"
    and "1 \<le> n_checkpoints_to_keep self"
    and "save_to cs (ppo_learner self) = Inr files"
    and "length old \<le> nat (n_checkpoints_to_keep self)"
  shows "\<exists>self'. save_each cs self ks = (None, self') \<and>
     mset (entry_names (save_folder self')) =
       mset (map py_str (drop (length (old @ ks) - nat (n_checkpoints_to_keep self)) (old @ ks)))"
  using assms(2-)
proof (induction ks arbitrary: self old)
  case Nil
  then show ?case by simp
next
  case (Cons k ks)
  define K where "K = nat (n_checkpoints_to_keep self)"
  define j where "j = Suc (length old) - K"
  from Cons.prems(2) have s1: "sorted_wrt (<) (old @ [k])"
    by (auto simp: sorted_wrt_append)
  from save_step [OF assms(1) Cons.prems(1) s1 Cons.prems(3,4)] obtain self1 where
    sv: "save cs self k = (None, self1)"
    and l1: "mset (entry_names (save_folder self1)) = mset (map py_str (drop j (old @ [k])))"
    and k1: "n_checkpoints_to_keep self1 = n_checkpoints_to_keep self"
    and p1: "ppo_learner self1 = ppo_learner self"
    unfolding j_def K_def by blast
  have jl: "j \<le> Suc (length old)" by (simp add: j_def)
  have "drop j (xs @ ks) = drop j xs @ ks" if "j \<le> length xs" for xs :: "int list"
    using that by simp
  from this [of "old @ [k]"] jl have e: "drop j (old @ [k]) @ ks = drop j (old @ k # ks)"
    by simp
  have "sorted_wrt (<) (drop j (old @ k # ks))"
    using Cons.prems(2) by (rule sorted_wrt_drop)
  with e have s2: "sorted_wrt (<) (drop j (old @ [k]) @ ks)" by simp
  have k2: "1 \<le> n_checkpoints_to_keep self1" using Cons.prems(3) k1 by simp
  have f2: "save_to cs (ppo_learner self1) = Inr files" using Cons.prems(4) p1 by simp
  have len: "length (drop j (old @ [k])) \<le> nat (n_checkpoints_to_keep self1)"
    using Cons.prems(3) by (simp add: k1 j_def K_def)
  from Cons.IH [OF l1 s2 k2 f2 len] obtain self2 where
    se: "save_each cs self1 ks = (None, self2)"
    and l2: "mset (entry_names (save_folder self2)) =
       mset (map py_str (drop (length (drop j (old @ [k]) @ ks) - K) (drop j (old @ [k]) @ ks)))"
    unfolding k1 K_def by blast
  have "(length (drop j (old @ [k]) @ ks) - K) + j = length (old @ k # ks) - K"
    by (simp add: j_def)
  then have "drop (length (drop j (old @ [k]) @ ks) - K) (drop j (old @ k # ks)) =
      drop (length (old @ k # ks) - K) (old @ k # ks)"
    by (simp only: drop_drop)
  with l2 have "mset (entry_names (save_folder self2)) =
      mset (map py_str (drop (length (old @ k # ks) - K) (old @ k # ks)))"
    by (simp only: e)
  with sv se show ?case by (simp add: K_def)
qed

text \<open>Claim C7, as amended. Let the save folder hold only checkpoint folders, named by their
  keys, let at least one checkpoint be kept, and let the model files be written without
  error. Then, in whatever order the folder is listed, saving \<open>K + m\<close> checkpoints
  (\<open>m\<close> at least one) with strictly increasing keys, all larger than the keys already
  present, completes without an exception and leaves exactly \<open>K\<close> folders, those of
  the last \<open>K\<close> keys saved: the names are compared as integers, the smallest removed
  first.\<close>

theorem checkpoint_retention:
  assumes listing: "\<And>names. mset (listdir_order cs names) = mset names"
    and present: "mset (entry_names (save_folder self)) = mset (map py_str old)"
    and increasing: "sorted_wrt (<) (old @ ks)"
    and keep: "1 \<le> n_checkpoints_to_keep self"
    and count: "length ks = nat (n_checkpoints_to_keep self) + m"
    and more: "1 \<le> m"
    and files: "save_to cs (ppo_learner self) = Inr files"
  shows "\<exists>self'. save_each cs self ks = (None, self') \<and>
     mset (entry_names (save_folder self')) = mset (map py_str (drop m ks)) \<and>
     mset (listdir (listdir_order cs) (save_folder self')) = mset (map py_str (drop m ks)) \<and>
     length (entry_names (save_folder self')) = nat (n_checkpoints_to_keep self) \<and>
     distinct (entry_names (save_folder self'))"
proof -
  define K where "K = nat (n_checkpoints_to_keep self)"
  from count more obtain k ks' where ks: "ks = k # ks'" by (cases ks) auto
  define j where "j = Suc (length old) - K"
  from increasing have s1: "sorted_wrt (<) (old @ [k])"
    by (auto simp: ks sorted_wrt_append)
  from save_step [OF listing present s1 keep files] obtain self1 where
    sv: "save cs self k = (None, self1)"
    and l1: "mset (entry_names (save_folder self1)) = mset (map py_str (drop j (old @ [k])))"
    and k1: "n_checkpoints_to_keep self1 = n_checkpoints_to_keep self"
    and p1: "ppo_learner self1 = ppo_learner self"
    unfolding j_def K_def by blast
  have jl: "j \<le> Suc (length old)" by (simp add: j_def)
  have "drop j (xs @ ks') = drop j xs @ ks'" if "j \<le> length xs" for xs :: "int list"
    using that by simp
  from this [of "old @ [k]"] jl have e: "drop j (old @ [k]) @ ks' = drop j (old @ ks)"
    by (simp add: ks)
  have "sorted_wrt (<) (drop j (old @ ks))"
    using increasing by (rule sorted_wrt_drop)
  with e have s2: "sorted_wrt (<) (drop j (old @ [k]) @ ks')" by simp
  have k2: "1 \<le> n_checkpoints_to_keep self1" using keep k1 by simp
  have f2: "save_to cs (ppo_learner self1) = Inr files" using files p1 by simp
  have len: "length (drop j (old @ [k])) \<le> nat (n_checkpoints_to_keep self1)"
    using keep by (simp add: k1 j_def K_def)
  from save_each_sorted [OF listing l1 s2 k2 f2 len] obtain self2 where
    se: "save_each cs self1 ks' = (None, self2)"
    and l2: "mset (entry_names (save_folder self2)) =
       mset (map py_str (drop (length (drop j (old @ [k]) @ ks') - K) (drop j (old @ [k]) @ ks')))"
    unfolding k1 K_def by blast
  have "(length (drop j (old @ [k]) @ ks') - K) + j = length old + m"
    using count more by (simp add: j_def ks K_def)
  then have "drop (length (drop j (old @ [k]) @ ks') - K) (drop j (old @ ks)) =
      drop (length old + m) (old @ ks)"
    by (simp only: drop_drop)
  also have "\<dots> = drop m ks" by simp
  finally have "drop (length (drop j (old @ [k]) @ ks') - K) (drop j (old @ [k]) @ ks') = drop m ks"
    by (simp only: e)
  with l2 have a: "mset (entry_names (save_folder self2)) = mset (map py_str (drop m ks))"
    by (simp only:)
  from sv se have r: "save_each cs self ks = (None, self2)" by (simp add: ks)
  from increasing have "distinct (drop m ks)"
    by (simp add: sorted_wrt_append strict_sorted_iff distinct_drop)
  then have "distinct (map py_str (drop m ks))"
    by (auto simp: distinct_map inj_on_def dest: py_str_inj)
  with a have d: "distinct (entry_names (save_folder self2))"
    by (metis mset_eq_imp_distinct_iff)
  from a have "length (entry_names (save_folder self2)) = length (map py_str (drop m ks))"
    by (rule mset_eq_length)
  with count have n: "length (entry_names (save_folder self2)) = nat (n_checkpoints_to_keep self)"
    by simp
  from a have "mset (listdir (listdir_order cs) (save_folder self2)) = mset (map py_str (drop m ks))"
    by (simp add: listdir_def listing)
  with r a n d show ?thesis by blast
qed

lemma py_str_more:
  "py_str 9 = ''9''" "py_str 10 = ''10''" "py_str 11 = ''11''" "py_str 12 = ''12''"
  by (simp_all add: py_str_def str_nat.simps digit_char_def)

lemma py_int_more: "py_int ''10'' = Inr 10"
  using py_int_py_str [of 10] by (simp add: py_str_more)

theorem checkpoint_retention_witness:
  "fst (save_each (demo_collaborators None) (demo_holding 2 [''9'']) [10, 11, 12]) = None \<and>
   mset (entry_names (save_folder
     (snd (save_each (demo_collaborators None) (demo_holding 2 [''9'']) [10, 11, 12])))) =
     mset [''11'', ''12'']"
proof -
  have h: "\<And>names. mset (listdir_order (demo_collaborators None) names) = mset names"
    "mset (entry_names (save_folder (demo_holding 2 [''9'']))) = mset (map py_str [9])"
    "sorted_wrt (<) ([9] @ [10, 11, 12 :: int])"
    "1 \<le> n_checkpoints_to_keep (demo_holding 2 [''9''])"
    "length [10, 11, 12 :: int] = nat (n_checkpoints_to_keep (demo_holding 2 [''9''])) + 1"
    "(1::nat) \<le> 1"
    "save_to (demo_collaborators None) (ppo_learner (demo_holding 2 [''9''])) = Inr 0"
    by (simp_all add: demo_holding_def demo_learner_def demo_collaborators_def entry_names_def
        py_str_more)
  from checkpoint_retention [OF h] show ?thesis
    by (auto simp: py_str_more)
qed

lemmas save_eval =
  save_def remove_old_checkpoints_def rmtree_def print_def makedirs_def entry_names_def
  listdir_def write_folder_def to_json_def slice_to_def slice_bound_def py_str_small
  py_int_small py_str_more py_int_more Let_def demo_collaborators_def demo_learner_def
  demo_holding_def

text \<open>Claim C7 as stated fails in three ways. With nothing to keep, one save leaves one
  folder: the slice \<open>existing_checkpoints[:-0]\<close> is empty, and the folder just saved is
  made again after pruning in any case. With one checkpoint to keep and the keys 2 then 1,
  the folder of key 1 is removed as the numerically oldest and made again, so two folders
  remain. With one checkpoint to keep and a folder that already holds key 10, saving the
  keys 1 then 2 leaves the folders of 10 and 2: the folder of the larger, older key is never
  removed.\<close>

theorem checkpoint_retention_fails:
  "fst (save_each (demo_collaborators None) (demo_learner 0) [0]) = None \<and>
   entry_names (save_folder (snd (save_each (demo_collaborators None) (demo_learner 0) [0]))) =
     [''0''] \<and>
   fst (save_each (demo_collaborators None) (demo_learner 1) [2, 1]) = None \<and>
   entry_names (save_folder (snd (save_each (demo_collaborators None) (demo_learner 1) [2, 1]))) =
     [''2'', ''1''] \<and>
   fst (save_each (demo_collaborators None) (demo_holding 1 [''10'']) [1, 2]) = None \<and>
   entry_names (save_folder
     (snd (save_each (demo_collaborators None) (demo_holding 1 [''10'']) [1, 2]))) =
     [''10'', ''2'']"
  by (simp add: save_eval)


lemma py_str_6: "py_str 6 = ''6''"
  by (simp add: py_str_def str_nat.simps digit_char_def)

lemma py_int_6: "py_int ''6'' = Inr 6"
  using py_int_py_str [of 6] by (simp add: py_str_6)

theorem checkpoint_round_trip_witness:
  "fst (save (demo_collaborators None) demo_trained 6) = None \<and>
   fst (load (demo_collaborators None)
          ((demo_learner 5)\<lparr> save_folder :=
             save_folder (snd (save (demo_collaborators None) demo_trained 6)) \<rparr>)
          (py_str 6) True) = Inr False \<and>
   epoch (snd (load (demo_collaborators None)
          ((demo_learner 5)\<lparr> save_folder :=
             save_folder (snd (save (demo_collaborators None) demo_trained 6)) \<rparr>)
          (py_str 6) True)) = 3 \<and>
   cumulative_timesteps (agent (snd (load (demo_collaborators None)
          ((demo_learner 5)\<lparr> save_folder :=
             save_folder (snd (save (demo_collaborators None) demo_trained 6)) \<rparr>)
          (py_str 6) True))) = 6 \<and>
   cumulative_model_updates (ppo_learner (snd (load (demo_collaborators None)
          ((demo_learner 5)\<lparr> save_folder :=
             save_folder (snd (save (demo_collaborators None) demo_trained 6)) \<rparr>)
          (py_str 6) True))) = 3 \<and>
   return_stats (snd (load (demo_collaborators None)
          ((demo_learner 5)\<lparr> save_folder :=
             save_folder (snd (save (demo_collaborators None) demo_trained 6)) \<rparr>)
          (py_str 6) True)) = \<lparr> stat_count = 6, stat_mean = 1 / 2, stat_variance = 1 / 4 \<rparr>"
proof -
  define C where "C = demo_collaborators None"
  define S where "S = snd (save C demo_trained 6)"
  define other where "other = (demo_learner 5)\<lparr> save_folder := save_folder S \<rparr>"
  define result where "result = fst (load C other (py_str 6) True)"
  define other' where "other' = snd (load C other (py_str 6) True)"
  have s0: "fst (save C demo_trained 6) = None"
    by (simp add: C_def demo_trained_def save_eval py_str_6 py_int_6)
  then have saved: "save C demo_trained 6 = (None, S)"
    by (simp add: S_def prod_eq_iff)
  have folder: "save_folder other = save_folder S"
    by (simp add: other_def)
  have loaded: "load C other (py_str 6) True = (result, other')"
    by (simp add: result_def other'_def)
  have r: "result = Inr False"
    unfolding result_def other_def S_def C_def
    by (simp add: load_def demo_trained_def save_eval py_str_6 py_int_6)
  have stats: "return_stats other' = \<lparr> stat_count = stat_count (return_stats other'),
      stat_mean = stat_mean (return_stats other'),
      stat_variance = stat_variance (return_stats other') \<rparr>"
    by simp
  from checkpoint_round_trip [OF saved folder loaded] r
  have "epoch other' = 3" "cumulative_timesteps (agent other') = 6"
    "cumulative_model_updates (ppo_learner other') = 3"
    "stat_count (return_stats other') = 6" "stat_mean (return_stats other') = 1 / 2"
    "stat_variance (return_stats other') = 1 / 4"
    by (simp_all add: demo_trained_def demo_learner_def)
  with stats have "epoch other' = 3" "cumulative_timesteps (agent other') = 6"
    "cumulative_model_updates (ppo_learner other') = 3"
    "return_stats other' = \<lparr> stat_count = 6, stat_mean = 1 / 2, stat_variance = 1 / 4 \<rparr>"
    by simp_all
  with s0 r show ?thesis
    unfolding other'_def result_def other_def S_def C_def by simp
qed

end
